theory Spec2Isabelle
  imports Complex_Main
begin

section \<open>JavaScript strings\<close>

text \<open>
  A JavaScript string is a sequence of UTF-16 code units. It is modelled by \<^typ>\<open>string\<close>;
  each \<^typ>\<open>char\<close> stands for one code unit below 256, so \<^const>\<open>length\<close> is the
  \<^verbatim>\<open>.length\<close> of the source. Every text of the repository that is embedded below is ASCII.
\<close>

text \<open>
  The characters that \<^verbatim>\<open>\s\<close> of a regular expression and \<^verbatim>\<open>String.prototype.trim\<close>
  treat as white space (ECMAScript WhiteSpace and LineTerminator), among the code units below 256:
  TAB, LF, VT, FF, CR, SPACE and NBSP.
\<close>

definition isWhiteSpace :: "char \<Rightarrow> bool" where
  "isWhiteSpace c \<longleftrightarrow>
     c \<in> set [CHR 0x09, CHR 0x0A, CHR 0x0B, CHR 0x0C, CHR 0x0D, CHR 0x20, CHR 0xA0]"

definition js_trim :: "string \<Rightarrow> string" where
  "js_trim s = rev (dropWhile isWhiteSpace (rev (dropWhile isWhiteSpace s)))"

definition startsWith :: "string \<Rightarrow> string \<Rightarrow> bool" where
  "startsWith s p \<longleftrightarrow> take (length p) s = p"

definition endsWith :: "string \<Rightarrow> string \<Rightarrow> bool" where
  "endsWith s p \<longleftrightarrow> length p \<le> length s \<and> drop (length s - length p) s = p"

text \<open>\<^verbatim>\<open>s.includes(p)\<close>: \<open>p\<close> occurs in \<open>s\<close> at some position.\<close>

fun js_includes :: "string \<Rightarrow> string \<Rightarrow> bool" where
  "js_includes [] p = (p = [])"
| "js_includes (c # cs) p = (startsWith (c # cs) p \<or> js_includes cs p)"

text \<open>
  \<^verbatim>\<open>toLowerCase\<close> on code units below 256: the ASCII capitals and the Latin-1 capitals
  (0xC0 to 0xDE, without the multiplication sign 0xD7) move up by 32.
\<close>

definition toLowerChar :: "char \<Rightarrow> char" where
  "toLowerChar c =
     (let n = of_char c :: nat in
      if (65 \<le> n \<and> n \<le> 90) \<or> (192 \<le> n \<and> n \<le> 222 \<and> n \<noteq> 215)
      then char_of (n + 32) else c)"

definition toLowerCase :: "string \<Rightarrow> string" where
  "toLowerCase s = map toLowerChar s"

text \<open>The decimal digits of a natural number, as \<^verbatim>\<open>${n}\<close> prints it in a template literal.\<close>

fun digits_of :: "nat \<Rightarrow> string" where
  "digits_of n =
     (if n < 10 then [char_of (48 + n)] else digits_of (n div 10) @ [char_of (48 + n mod 10)])"

declare digits_of.simps [simp del]

section \<open>Data model (types.ts)\<close>

text \<open>
  \<^verbatim>\<open>interface HardeningOption\<close>. The optional fields \<^verbatim>\<open>subOptions\<close> and
  \<^verbatim>\<open>rebootRequired\<close> are \<open>None\<close> when absent. The field \<^verbatim>\<open>id\<close> is named
  \<open>opt_id\<close>.
\<close>

datatype HardeningOption =
  HardeningOption
    (opt_id: string)
    (label: string)
    (description: string)
    (prompt: string)
    (subOptions: "HardeningOption list option")
    (rebootRequired: "bool option")

record ParanoiaLevel =
  level :: nat
  title :: string
  level_description :: string
  options :: "HardeningOption list"

text \<open>
  \<^verbatim>\<open>type SelectedOptions = Record<string, boolean>\<close>: an object with its own keys in
  insertion order, as an association list with distinct keys. A key that is absent reads as
  \<^verbatim>\<open>undefined\<close>, which is falsy. The names that every object inherits from
  \<^verbatim>\<open>Object.prototype\<close> (\<^verbatim>\<open>constructor\<close>, \<^verbatim>\<open>toString\<close>, \<^verbatim>\<open>__proto__\<close> and the like) do not
  read so; no id of the catalog is one of them, and ids are taken not to be.
\<close>

type_synonym SelectedOptions = "(string \<times> bool) list"

text \<open>
  Writing a property of an object, and \<^verbatim>\<open>Map.prototype.set\<close>: an existing key keeps its
  place and takes the new value, a new key goes to the end.
\<close>

fun js_set :: "'k \<Rightarrow> 'v \<Rightarrow> ('k \<times> 'v) list \<Rightarrow> ('k \<times> 'v) list" where
  "js_set k v [] = [(k, v)]"
| "js_set k v ((k', v') # m) = (if k' = k then (k, v) # m else (k', v') # js_set k v m)"

text \<open>Reading \<^verbatim>\<open>sel[id]\<close> in a boolean position.\<close>

definition truthy :: "SelectedOptions \<Rightarrow> string \<Rightarrow> bool" where
  "truthy sel i \<longleftrightarrow> map_of sel i = Some True"

section \<open>The option catalog (constants.ts)\<close>

text \<open>
  The object spread \<^verbatim>\<open>{ ...parent, subOptions: [...] }\<close>: a copy of the parent with another
  list of children.
\<close>

fun with_subOptions :: "HardeningOption \<Rightarrow> HardeningOption list \<Rightarrow> HardeningOption" where
  "with_subOptions (HardeningOption i l d p s r) subs = HardeningOption i l d p (Some subs) r"

definition allOptions_updates :: HardeningOption where
  "allOptions_updates =
     HardeningOption
       ''updates''
       ''System Updates & Packages''
       ''Ensure all packages are up-to-date and remove unnecessary software.''
       (''*   **System Updates & Package Management**: Ensure the system is fully up-to-date using `dnf upgrade -y`. Identify and suggest removal of common unnecessary services or packages (e.g., telnet-server, rsh-server). After updates, clean the DNF cache using `dnf clean all`.'')
       None
       None"

definition allOptions_firewall :: HardeningOption where
  "allOptions_firewall =
     HardeningOption
       ''firewall''
       ''Firewall Configuration''
       ''Set up firewalld with a default-deny policy and allow essential services.''
       (''*   **Firewall Configuration**: Configure `firewalld`. Set the default zone to public, with a default-deny policy for incoming traffic. Add rules to allow SSH (on a non-standard port if specified) and other essential services.'')
       None
       None"

definition allOptions_ssh :: HardeningOption where
  "allOptions_ssh =
     HardeningOption
       ''ssh''
       ''SSH Hardening''
       ''Secure the SSH daemon by disabling root login and enforcing key-based auth.''
       (''*   **SSH Hardening**: Secure `/etc/ssh/sshd_config`. The script should programmatically (e.g., using `sed`) disable root login (`PermitRootLogin no`), disable password authentication (`PasswordAuthentication no`), and enable key-based authentication (`PubkeyAuthentication yes`). Warn the user to have a key in place before running.'')
       None
       None"

definition allOptions_fail2ban :: HardeningOption where
  "allOptions_fail2ban =
     HardeningOption
       ''fail2ban''
       ''Fail2Ban Intrusion Prevention''
       ''Install and configure Fail2Ban to block brute-force attacks on SSH.''
       (''*   **Fail2Ban Intrusion Prevention**: Install the `fail2ban` package. Create a configuration file at `/etc/fail2ban/jail.local` to override the defaults and prevent changes from being overwritten by package updates. Populate this file with a `[sshd]` section, setting `enabled = true`, a `bantime` of `1h`, a `findtime` of `10m`, and a `maxretry` of `3`. After creating the file, enable and start the `fail2ban` service via `systemctl`. Add comments to the script explaining how a user can customize these values.'')
       None
       None"

definition allOptions_passwordPolicy :: HardeningOption where
  "allOptions_passwordPolicy =
     HardeningOption
       ''passwordPolicy''
       ''Enforce Strong Password Policies''
       ''Configure /etc/security/pwquality.conf to enforce password complexity.''
       (''*   **Enforce Strong Password Policies**: Modify `/etc/security/pwquality.conf` using `sed` or `awk` to set strong password requirements. Include `minlen = 14`, `dcredit = -1` (at least one digit), `ucredit = -1` (at least one uppercase), `ocredit = -1` (at least one special char), `lcredit = -1` (at least one lowercase). Explain each setting in comments.'')
       None
       None"

definition allOptions_userAccountManagement :: HardeningOption where
  "allOptions_userAccountManagement =
     HardeningOption
       ''userAccountManagement''
       ''User Account Management''
       ''Add a placeholder for a new admin user and lock inactive accounts.''
       (''*   **User Account Management**: Define a placeholder variable `NEW_ADMIN_USER='' @ [CHR 0x22] @
        ''your_admin'' @ [CHR 0x22] @
        ''`. The script will check if this user exists. If not, it will create this user (`useradd -m -s /bin/bash $NEW_ADMIN_USER`), add them to the `wheel` group for sudo access (`usermod -aG wheel $NEW_ADMIN_USER`), and set an account expiration date 90 days from creation using `chage`. The script should also include a function to find and lock any user accounts (excluding system accounts with UID < 1000) that have been inactive for over 35 days.'')
       None
       None"

definition allOptions_sudoAudit :: HardeningOption where
  "allOptions_sudoAudit =
     HardeningOption
       ''sudoAudit''
       ''Audit Sudo Privileges''
       ''Check /etc/sudoers and /etc/sudoers.d/ for insecure configurations.''
       (''*   **Audit Sudo Privileges**: The script should check for insecure sudo configurations by scanning `/etc/sudoers` and files in `/etc/sudoers.d/`. Specifically, it should report any users or groups with `NOPASSWD` privileges and any entries for the `ALL` keyword. The findings should be logged with `log_warning`.'')
       None
       None"

definition allOptions_kernel :: HardeningOption where
  "allOptions_kernel =
     HardeningOption
       ''kernel''
       ''Kernel Hardening (sysctl)''
       ''Apply security-focused kernel parameter tuning via sysctl.''
       (''*   **Kernel Hardening (sysctl)**: Apply security-related kernel parameters by creating a configuration file in `/etc/sysctl.d/`. Include settings to prevent IP spoofing, mitigate SYN flood attacks, and harden network parameters.'')
       None
       (Some True)"

definition allOptions_filesystem :: HardeningOption where
  "allOptions_filesystem =
     HardeningOption
       ''filesystem''
       ''Secure Filesystem Mounts''
       ''Secure shared memory and temporary directories; find insecure permissions.''
       (''*   **Filesystem & Permissions**: Secure `/tmp` and `/var/tmp` by mounting them with `noexec`, `nosuid`, and `nodev` options. Secure shared memory (`/dev/shm`). Find and report world-writable files and directories.'')
       None
       (Some True)"

definition allOptions_logging :: HardeningOption where
  "allOptions_logging =
     HardeningOption
       ''logging''
       ''Logging & Auditing Setup (auditd)''
       ''Configure and enable the auditd service with a baseline ruleset.''
       (''*   **Logging & Auditing Setup**: Ensure the `audit` package is installed. Start and enable the `auditd` service. Create a baseline ruleset in `/etc/audit/rules.d/00-base.rules` that sets the buffer size, enables the daemon, and sets the failure mode to panic. After adding any specific rules files, the script must run `augenrules --load` to apply them.'')
       None
       None"

definition allOptions_auditFileAccess :: HardeningOption where
  "allOptions_auditFileAccess =
     HardeningOption
       ''auditFileAccess''
       ''Monitor Critical File Access''
       ''Set auditd rules to watch for changes to sensitive files like /etc/passwd.''
       (''*   **Audit Critical File Access**: Generate auditd rules to monitor read, write, and attribute change access to critical system files. Include rules for `/etc/passwd`, `/etc/shadow`, `/etc/group`, `/etc/gshadow`, `/etc/sudoers`, and `/etc/selinux/semanage.conf`. The rules should be written to `/etc/audit/rules.d/50-file-access.rules`.'')
       None
       None"

definition allOptions_auditCommands :: HardeningOption where
  "allOptions_auditCommands =
     HardeningOption
       ''auditCommands''
       ''Monitor Privileged Commands''
       ''Log the execution of commands that can alter system security.''
       (''*   **Audit Privileged Commands**: Generate auditd rules to monitor the execution of commands that can affect system security. Track `setuid` and `setgid` programs and specifically watch for the execution of `/usr/bin/sudo`, `/usr/bin/mount`, `/usr/bin/chown`, and `/usr/bin/chmod`. The rules should be written to `/etc/audit/rules.d/51-commands.rules`.'')
       None
       None"

definition allOptions_auditLogins :: HardeningOption where
  "allOptions_auditLogins =
     HardeningOption
       ''auditLogins''
       ''Monitor Login Attempts''
       ''Audit all login events, session creations, and failed login attempts.''
       (''*   **Audit Login Attempts**: Generate auditd rules to create a log trail for all login events. Monitor the files `/var/log/faillog`, `/var/log/lastlog`, and `/var/log/tallylog`. Also, audit syscalls related to session creation like `setsid`. The rules should be written to `/etc/audit/rules.d/52-logins.rules`.'')
       None
       None"

definition allOptions_selinux :: HardeningOption where
  "allOptions_selinux =
     HardeningOption
       ''selinux''
       ''SELinux Configuration''
       ''Ensure SELinux is set to enforcing mode.''
       (''*   **SELinux Configuration**: Ensure SELinux is enabled and running in `enforcing` mode. Modify `/etc/selinux/config` programmatically (e.g., using `sed`) to set `SELINUX=enforcing`. Add comments explaining how to check SELinux status (`sestatus`) and temporarily set modes (`setenforce 1`).'')
       None
       (Some True)"

definition allOptions_sshPort :: HardeningOption where
  "allOptions_sshPort =
     HardeningOption
       ''sshPort''
       ''Change Default SSH Port''
       ''Move SSH to a non-standard port to reduce exposure to automated attacks.''
       (''*   **Change SSH Port**: The script should define a variable `NEW_SSH_PORT` and set it to a non-standard port (e.g., 2222). It must then programmatically modify `/etc/ssh/sshd_config` to change the listening port to this new value. After updating the config, the script MUST also update both the firewall and SELinux policy to allow the new port. Use `firewall-cmd --permanent --add-port=$NEW_SSH_PORT/tcp` and `semanage port -a -t ssh_port_t -p tcp $NEW_SSH_PORT`. Check if the `policycoreutils-python-utils` package (which provides `semanage`) is installed first. The script must reload both `firewalld` and `sshd` services to apply all changes. Add comments explaining each step.'')
       None
       None"

definition allOptions_umask :: HardeningOption where
  "allOptions_umask =
     HardeningOption
       ''umask''
       ''Enforce Stricter Umask''
       (''Set a more secure default umask (e.g., 027) for new users to limit default file permissions.'')
       (''*   **Stricter Umask**: Configure a stricter default umask of `027` for all users to ensure new files and directories are not world-readable by default. Modify both `/etc/bashrc` and `/etc/profile` to set the umask.'')
       None
       None"

definition allOptions_autoUpdates :: HardeningOption where
  "allOptions_autoUpdates =
     HardeningOption
       ''autoUpdates''
       ''Enable Automatic Security Updates''
       ''Install and configure dnf-automatic to apply security updates daily.''
       (''*   **Automatic Security Updates**: Install the `dnf-automatic` package. Configure it by modifying `/etc/dnf/automatic.conf`. Set `upgrade_type = security` and `apply_updates = yes`. Enable and start the `dnf-automatic.timer` systemd unit.'')
       None
       None"

definition allOptions_disableFilesystems :: HardeningOption where
  "allOptions_disableFilesystems =
     HardeningOption
       ''disableFilesystems''
       ''Disable Unused Filesystems''
       ''Prevent loading of uncommon filesystems to reduce kernel attack surface.''
       (''*   **Disable Unused Filesystems**: Create a file in `/etc/modprobe.d/` to prevent the loading of uncommon filesystems. Add `install <filesystem_name> /bin/true` for filesystems like `cramfs`, `freevxfs`, `jffs2`, `hfs`, `hfsplus`, `squashfs`, and `udf`.'')
       None
       (Some True)"

definition allOptions_bindCheck :: HardeningOption where
  "allOptions_bindCheck =
     HardeningOption
       ''bindCheck''
       ''Check for BIND Vulnerabilities''
       (''Suggests updating BIND if it'' @ [CHR 0x27] @
        ''s installed and vulnerable to known exploits.'')
       (''*   **BIND Vulnerability Check**: The script will check if the `bind` package is installed. If it is, it will use `named -v` to get the version and display it to the user with a warning to check for CVEs. It will also use `dnf --security check-update bind` to see if there are pending security updates for the package and recommend the user to run `dnf upgrade bind` if any are found.'')
       None
       None"

definition allOptions_grubPassword :: HardeningOption where
  "allOptions_grubPassword =
     HardeningOption
       ''grubPassword''
       ''Set GRUB Bootloader Password''
       ''Protects the GRUB bootloader with a password to prevent unauthorized boot changes.''
       (''*   **Set GRUB Password**: Protects the bootloader menu. The script will first generate a secure, random 16-character alphanumeric password. It will log this password to the screen and to the log file, with a strong warning for the user to save it immediately. Then, it will generate a PBKDF2 hash of that password using `grub2-mkpasswd-pbdf2`. It will then create a custom GRUB settings file at `/etc/grub.d/01_users` and programmatically add a superuser (`set superusers='' @
        [CHR 0x22] @ ''root'' @ [CHR 0x22] @
        ''`) and the hashed password (`password_pbkdf2 root HASH_FROM_PREVIOUS_STEP`). It must then make this file executable and readable only by root (`chmod 700 /etc/grub.d/01_users`). Finally, it should regenerate the main `grub.cfg` file by detecting the correct location (UEFI vs BIOS) and running `grub2-mkconfig` with the correct output path. Add very prominent, multi-line comments explaining that the generated password is critical and losing it will require boot media to recover the system.'')
       None
       (Some True)"

definition allOptions_iptablesAdvanced :: HardeningOption where
  "allOptions_iptablesAdvanced =
     HardeningOption
       ''iptablesAdvanced''
       ''Advanced IPtables Ruleset''
       ''Configure a stateful firewall, log dropped packets, and mitigate common stealth scans.''
       (''*   **Advanced IPtables Ruleset**: The script must generate a secure, stateful firewall ruleset using `iptables`. First, it should flush all existing rules (`iptables -F`), delete all chains (`iptables -X`), and zero all counters (`iptables -Z`). It should then set default policies to `DROP` for the `INPUT` and `FORWARD` chains, and `ACCEPT` for the `OUTPUT` chain. The rules should: allow loopback traffic; allow established and related incoming connections (`-m conntrack --ctstate ESTABLISHED,RELATED`); log and drop common stealth scans (NULL, FIN, XMAS); log and drop invalid packets; and rate-limit new SSH connection attempts to 3 per minute to prevent brute-force attacks. After all rules are added, use `iptables-save` to persist them.'')
       None
       None"

definition allOptions_iptablesBogon :: HardeningOption where
  "allOptions_iptablesBogon =
     HardeningOption
       ''iptablesBogon''
       ''Block Bogon Networks''
       (''Drop traffic from unroutable and unallocated '' @ [CHR 0x22] @ ''bogon'' @ [CHR 0x22] @
        '' IP address spaces.'')
       (''*   **Block Bogon Networks**: The script should add `iptables` rules to the `INPUT` chain to drop all packets from known unroutable and unallocated '' @
        [CHR 0x22] @ ''bogon'' @ [CHR 0x22] @
        '' IP address spaces. This includes ranges like `0.0.0.0/8`, `10.0.0.0/8`, `127.0.0.0/8`, `169.254.0.0/16`, `172.16.0.0/12`, `192.168.0.0/16`, etc. Add comments explaining what bogon networks are.'')
       None
       None"

definition allOptions_iptablesPortKnocking :: HardeningOption where
  "allOptions_iptablesPortKnocking =
     HardeningOption
       ''iptablesPortKnocking''
       ''Enable Port Knocking for SSH''
       (''Hide the SSH port, opening it only after a secret sequence of connection '' @ [CHR 0x22] @
        ''knocks'' @ [CHR 0x22] @ ''.'')
       (''*   **Enable Port Knocking for SSH**: This is an advanced feature. The script should use `iptables` to set up a port knocking sequence for SSH. First, ensure the main SSH rule is REMOVED from the INPUT chain. Then, create three new chains (e.g., `KNOCK1`, `KNOCK2`, `SSH_GATE`). A new connection to a secret port (e.g., 7001) should move the source IP to the `KNOCK1` list. A subsequent connection from that IP to a second secret port (e.g., 7002) moves them to `KNOCK2`. A final knock on a third port (e.g., 7003) moves them to `SSH_GATE`, which contains the rule to `ACCEPT` traffic on the real SSH port. The user'' @
        [CHR 0x27] @
        ''s IP is tracked via the `recent` module. IPs are remembered for only 15 seconds in each stage. Add extensive comments explaining how to use this (e.g., `knock server 7001 7002 7003`) and how to change the ports.'')
       None
       None"

definition allOptions_dnfSecurity :: HardeningOption where
  "allOptions_dnfSecurity =
     HardeningOption
       ''dnfSecurity''
       ''Secure DNF Configuration''
       ''Enforce GPG checks for all packages and audit repository configurations.''
       (''*   **Secure DNF Configuration**: The script must ensure that GPG signature checking is globally enabled. Programmatically verify and set `gpgcheck=1` in the `[main]` section of `/etc/dnf/dnf.conf`. Additionally, the script should scan all `.repo` files in `/etc/yum.repos.d/` and use `log_warning` to report any repositories that are configured with `gpgcheck=0`, as this is a major security risk. It should also list any disabled repositories (`enabled=0`) for user review. Add comments explaining the importance of these settings.'')
       None
       None"

definition allOptions_pciDss :: HardeningOption where
  "allOptions_pciDss =
     HardeningOption
       ''pciDss''
       ''PCI DSS Baseline Checks''
       (''Install and configure tools to meet common PCI DSS requirements like File Integrity Monitoring (AIDE) and log retention.'')
       (''*   **PCI DSS Baseline Checks**: This section implements several controls related to the Payment Card Industry Data Security Standard.'' @
        [CHR 0x0A] @
        ''*   **File Integrity Monitoring (Req 11.5)**: Install the `aide` package. Initialize the AIDE database using `aide --init` and then move the new database to become the active one (`mv /var/lib/aide/aide.db.new.gz /var/lib/aide/aide.db.gz`). Add comments explaining that the initial database must be stored securely. Create a cron job in `/etc/cron.daily/aidecheck` to run `aide --check` and log the results.'' @
        [CHR 0x0A] @
        ''*   **Log Retention (Req 10.7)**: Configure system logs to be persistent and retained. Modify `/etc/systemd/journald.conf` to set `Storage=persistent` and `SystemMaxUse=500M` to prevent excessive disk usage. The script should then restart the `systemd-journald` service.'' @
        [CHR 0x0A] @
        ''*   **Disable Unnecessary Services (Req 2.2.2)**: Systematically disable services that are insecure or typically not required in a PCI environment, such as `telnet.socket`, `rsh.socket`, `nfs-server`, and `samba`. Use `systemctl disable --now` for each.'' @
        [CHR 0x0A] @
        ''*   **Password History & Lockout (Req 8.2.3, 8.1.6)**: Enhance password security. Check PAM configuration files in `/etc/pam.d/` (like `password-auth` and `system-auth`) to ensure `pam_pwhistory.so` is used to remember at least the last 5 passwords, and `pam_tally2.so` is configured to lock an account for 15 minutes after 5 failed login attempts.'')
       None
       None"

definition systemAndPackagesParent :: HardeningOption where
  "systemAndPackagesParent =
     HardeningOption
       ''systemAndPackages''
       ''System & Package Management''
       ''Core system updates and package manager configuration.''
       ''''
       (Some [allOptions_updates, allOptions_autoUpdates, allOptions_dnfSecurity])
       None"

definition networkSecurityParent :: HardeningOption where
  "networkSecurityParent =
     HardeningOption
       ''networkSecurity''
       ''Network Security''
       ''Harden network services like SSH and the system firewall.''
       ''''
       (Some [allOptions_firewall, allOptions_ssh, allOptions_sshPort, allOptions_fail2ban])
       None"

definition userManagementParent :: HardeningOption where
  "userManagementParent =
     HardeningOption
       ''userManagement''
       ''User & Access Control''
       ''Manage user accounts, enforce strong passwords, and set restrictive permissions.''
       ''''
       (Some [allOptions_passwordPolicy, allOptions_userAccountManagement, allOptions_sudoAudit, allOptions_umask])
       None"

definition systemInternalsParent :: HardeningOption where
  "systemInternalsParent =
     HardeningOption
       ''systemInternals''
       ''System Internals''
       ''Harden low-level system components like the kernel and SELinux.''
       ''''
       (Some [allOptions_kernel, allOptions_selinux])
       None"

definition serviceHardeningParent :: HardeningOption where
  "serviceHardeningParent =
     HardeningOption
       ''serviceHardening''
       ''Service-Specific Hardening''
       ''Check for vulnerabilities in specific installed services.''
       ''''
       (Some [allOptions_bindCheck])
       None"

definition iptablesParent :: HardeningOption where
  "iptablesParent =
     HardeningOption
       ''iptables''
       ''Advanced Firewall (iptables)''
       ''Implement a highly secure, layered firewall using advanced iptables features.''
       ''''
       (Some [allOptions_iptablesAdvanced, allOptions_iptablesBogon, allOptions_iptablesPortKnocking])
       None"

definition loggingParent :: HardeningOption where
  "loggingParent =
     HardeningOption
       ''loggingParent''
       ''Auditing & Logging''
       ''Configure detailed system logging and auditing to track security events.''
       ''''
       (Some [allOptions_logging, allOptions_auditFileAccess, allOptions_auditCommands, allOptions_auditLogins])
       None"

definition bootAndFilesystemParent :: HardeningOption where
  "bootAndFilesystemParent =
     HardeningOption
       ''bootAndFilesystem''
       ''Boot & Filesystem Security''
       ''Secure the boot process and harden filesystem configurations.''
       ''''
       (Some [allOptions_grubPassword, allOptions_filesystem, allOptions_disableFilesystems])
       None"

definition complianceParent :: HardeningOption where
  "complianceParent =
     HardeningOption
       ''compliance''
       ''Compliance Frameworks''
       ''Apply configurations based on common security standards like PCI DSS.''
       ''''
       (Some [allOptions_pciDss])
       None"

definition PARANOIA_LEVELS :: "ParanoiaLevel list" where
  "PARANOIA_LEVELS =
     [\<lparr>level = 1,
       title = ''Level 1: Essential Hardening'',
       level_description =
         ''Recommended for all systems. These are fundamental security practices with low risk of impacting system functionality.'',
       options =
         [with_subOptions systemAndPackagesParent [allOptions_updates],
          with_subOptions networkSecurityParent [allOptions_firewall, allOptions_ssh, allOptions_sshPort]]\<rparr>,
      \<lparr>level = 2,
       title = ''Level 2: Advanced Security'',
       level_description =
         ''For production servers and systems handling sensitive data. These measures offer enhanced protection but may require some configuration.'',
       options =
         [with_subOptions systemAndPackagesParent [allOptions_autoUpdates, allOptions_dnfSecurity],
          with_subOptions networkSecurityParent [allOptions_fail2ban],
          userManagementParent,
          systemInternalsParent,
          serviceHardeningParent]\<rparr>,
      \<lparr>level = 3,
       title = ''Level 3: Maximum Security ('' @ [CHR 0x22] @ ''Paranoid Mode'' @ [CHR 0x22] @ '')'',
       level_description =
         ''For high-risk environments where security is paramount. These settings may affect usability or application compatibility.'',
       options =
         [iptablesParent,
          bootAndFilesystemParent,
          loggingParent,
          complianceParent]\<rparr>]"

section \<open>Lookups built at module load (App.tsx)\<close>

text \<open>\<^verbatim>\<open>getAllOptionsRecursively\<close>: the options of a forest in preorder.\<close>

fun getAllOptionsRecursively :: "HardeningOption list \<Rightarrow> HardeningOption list" where
  "getAllOptionsRecursively [] = []"
| "getAllOptionsRecursively (HardeningOption i l d p s r # rest) =
     (HardeningOption i l d p s r #
        (case s of None \<Rightarrow> [] | Some subs \<Rightarrow> getAllOptionsRecursively subs))
     @ getAllOptionsRecursively rest"

text \<open>
  \<^verbatim>\<open>idToOptionMap\<close> and \<^verbatim>\<open>parentMap\<close> are JavaScript Maps: association lists in
  insertion order. \<^verbatim>\<open>buildLookups\<close> writes both; \<^verbatim>\<open>if (parentId)\<close> holds for a string
  that is neither \<^verbatim>\<open>null\<close> nor empty, \<^verbatim>\<open>if (option.subOptions)\<close> for any array.
\<close>

type_synonym IdToOptionMap = "(string \<times> HardeningOption) list"
type_synonym ParentMap = "(string \<times> string) list"

fun buildLookups ::
  "HardeningOption list \<Rightarrow> string option \<Rightarrow> IdToOptionMap \<times> ParentMap \<Rightarrow> IdToOptionMap \<times> ParentMap"
where
  "buildLookups [] parentId maps = maps"
| "buildLookups (HardeningOption i l d p s r # rest) parentId (idm, pm) =
     (let idm1 = js_set i (HardeningOption i l d p s r) idm;
          pm1 = (case parentId of
                   None \<Rightarrow> pm
                 | Some pid \<Rightarrow> if pid \<noteq> [] then js_set i pid pm else pm);
          maps2 = (case s of
                     None \<Rightarrow> (idm1, pm1)
                   | Some subs \<Rightarrow> buildLookups subs (Some i) (idm1, pm1))
      in buildLookups rest parentId maps2)"

text \<open>\<^verbatim>\<open>PARANOIA_LEVELS.forEach(level => buildLookups(level.options))\<close>, from two empty Maps.\<close>

definition lookups_of :: "ParanoiaLevel list \<Rightarrow> IdToOptionMap \<times> ParentMap" where
  "lookups_of levels = foldl (\<lambda>maps lv. buildLookups (options lv) None maps) ([], []) levels"

definition idToOptionMap :: IdToOptionMap where
  "idToOptionMap = fst (lookups_of PARANOIA_LEVELS)"

definition parentMap :: ParentMap where
  "parentMap = snd (lookups_of PARANOIA_LEVELS)"

text \<open>\<^verbatim>\<open>Array.from(idToOptionMap.values())\<close>.\<close>

definition allOptionsFromLevels :: "HardeningOption list" where
  "allOptionsFromLevels = map snd idToOptionMap"

text \<open>\<^verbatim>\<open>initialSelections\<close>: every key of \<^verbatim>\<open>idToOptionMap\<close> set to \<^verbatim>\<open>false\<close>.\<close>

definition initialSelections_of :: "IdToOptionMap \<Rightarrow> SelectedOptions" where
  "initialSelections_of idm = foldl (\<lambda>acc key. js_set key False acc) [] (map fst idm)"

definition initialSelections :: SelectedOptions where
  "initialSelections = initialSelections_of idToOptionMap"

section \<open>Selection state engine (App.tsx, handleOptionChange)\<close>

text \<open>
  The upward walk \<^verbatim>\<open>while (parentId) { ... parentId = parentMap.get(parentId) }\<close>. Nothing in
  the loop bounds the number of rounds (a parent map with a cycle keeps it running), so the
  walk is a partial function and \<open>None\<close> stands for a walk that never ends.
\<close>

partial_function (option) climb ::
  "IdToOptionMap \<Rightarrow> ParentMap \<Rightarrow> bool \<Rightarrow> string option \<Rightarrow> SelectedOptions \<Rightarrow> SelectedOptions option"
where
  "climb idm pm isChecked parentId newSelections =
     (case parentId of
        None \<Rightarrow> Some newSelections
      | Some pid \<Rightarrow>
          if pid = [] then Some newSelections
          else (case map_of idm pid of
                  None \<Rightarrow> Some newSelections
                | Some parentOption \<Rightarrow>
                    (case subOptions parentOption of
                       None \<Rightarrow> Some newSelections
                     | Some subs \<Rightarrow>
                         climb idm pm isChecked (map_of pm pid)
                           (js_set pid
                              (if isChecked
                               then list_all (\<lambda>sub. truthy newSelections (opt_id sub)) subs
                               else False)
                              newSelections))))"

text \<open>
  \<^verbatim>\<open>handleOptionChange(id)\<close> as the function from the previous selection state to the next:
  flip the option, copy the new value to all its descendants, then walk up.
\<close>

definition handleOptionChange ::
  "IdToOptionMap \<Rightarrow> ParentMap \<Rightarrow> string \<Rightarrow> SelectedOptions \<Rightarrow> SelectedOptions option"
where
  "handleOptionChange idm pm i prev =
     (let isChecked = \<not> truthy prev i;
          newSelections = js_set i isChecked prev;
          descendants = (case map_of idm i of
                           None \<Rightarrow> []
                         | Some changedOption \<Rightarrow>
                             (case subOptions changedOption of
                                None \<Rightarrow> []
                              | Some subs \<Rightarrow> getAllOptionsRecursively subs));
          newSelections' = foldl (\<lambda>sel descendant. js_set (opt_id descendant) isChecked sel)
                             newSelections descendants
      in climb idm pm isChecked (map_of pm i) newSelections')"

text \<open>A sequence of toggles, from left to right; it has a result when every toggle has one.\<close>

fun toggles ::
  "IdToOptionMap \<Rightarrow> ParentMap \<Rightarrow> string list \<Rightarrow> SelectedOptions \<Rightarrow> SelectedOptions option"
where
  "toggles idm pm [] sel = Some sel"
| "toggles idm pm (i # ids) sel =
     (case handleOptionChange idm pm i sel of
        None \<Rightarrow> None
      | Some sel' \<Rightarrow> toggles idm pm ids sel')"

declare climb.simps [code]

section \<open>Remote generation gateway (services/geminiService.ts)\<close>

text \<open>
  A value that is thrown or that rejects a promise: an \<^verbatim>\<open>Error\<close> object with its
  message, or any other value.
\<close>

datatype thrown = ErrorObj (message: string) | NonError

text \<open>\<^verbatim>\<open>handleApiError(error, context)\<close>: the \<^verbatim>\<open>Error\<close> it returns.\<close>

definition handleApiError :: "thrown \<Rightarrow> string \<Rightarrow> thrown" where
  "handleApiError error context =
     (case error of
        ErrorObj msg \<Rightarrow>
          (let message = toLowerCase msg in
           if js_includes message ''api key not valid'' \<or> js_includes message ''permission denied''
           then ErrorObj ''Authentication Error: The API key is invalid or missing. Please ensure it is configured correctly.''
           else if js_includes message ''fetch failed'' \<or> js_includes message ''network''
           then ErrorObj ''Network Error: Could not connect to the API. Please check your internet connection.''
           else if js_includes message ''resource has been exhausted'' \<or> js_includes message ''rate limit''
           then ErrorObj ''Rate Limit Exceeded: Too many requests sent. Please wait a while before trying again.''
           else ErrorObj (''An unexpected API error occurred during '' @ context @
                          ''. Check the console for details.''))
      | NonError \<Rightarrow> ErrorObj (''An unknown error occurred during '' @ context @ ''.''))"

text \<open>
  \<^verbatim>\<open>cleanScriptOutput\<close>. The first replacement, \<^verbatim>\<open>/^```(?:bash|sh)?\s*/\<close>, matches at the
  start of the text only: the three backticks, then \<^verbatim>\<open>bash\<close> if it follows, otherwise
  \<^verbatim>\<open>sh\<close> if it follows, then all the white space that follows (the match never backtracks,
  since \<^verbatim>\<open>\s*\<close> matches the empty text). The second, \<^verbatim>\<open>/```$/\<close>, has no \<^verbatim>\<open>m\<close> flag, so it
  matches three backticks that are the last three characters of the text.
\<close>

definition strip_open :: "string \<Rightarrow> string" where
  "strip_open s =
     (if startsWith s ''```'' then
        (let r = drop 3 s;
             r' = (if startsWith r ''bash'' then drop 4 r
                   else if startsWith r ''sh'' then drop 2 r
                   else r)
         in dropWhile isWhiteSpace r')
      else s)"

definition strip_close :: "string \<Rightarrow> string" where
  "strip_close s = (if endsWith s ''```'' then take (length s - 3) s else s)"

definition cleanScriptOutput :: "string \<Rightarrow> string" where
  "cleanScriptOutput rawOutput = js_trim (strip_close (strip_open rawOutput))"

definition configurationError :: thrown where
  "configurationError =
     ErrorObj ''Configuration Error: The API_KEY environment variable is not set.''"

text \<open>
  \<^verbatim>\<open>callApi\<close>. \<open>apiKey\<close> tells whether \<^verbatim>\<open>process.env.API_KEY\<close> is set; \<open>remote\<close> is what
  \<^verbatim>\<open>generateContent\<close> does with the request: it rejects with a value, or resolves with a
  response whose \<^verbatim>\<open>text\<close> is given. The wording of the request is not part of the model.
\<close>

definition callApi :: "bool \<Rightarrow> thrown + string \<Rightarrow> thrown + string" where
  "callApi apiKey remote =
     (if \<not> apiKey then Inl configurationError
      else (case remote of
              Inl error \<Rightarrow> Inl (handleApiError error ''script generation'')
            | Inr rawScript \<Rightarrow> Inr (cleanScriptOutput rawScript)))"

text \<open>
  The three generation operations differ in the request they send, which names the call.
  A gateway answers a call given the calls dispatched before it.
\<close>

datatype call = CallHeader | CallSection HardeningOption | CallFooter

type_synonym gateway = "call list \<Rightarrow> call \<Rightarrow> thrown + string"

definition geminiGateway :: "bool \<Rightarrow> (call list \<Rightarrow> call \<Rightarrow> thrown + string) \<Rightarrow> gateway" where
  "geminiGateway apiKey remote = (\<lambda>log c. callApi apiKey (remote log c))"

subsection \<open>Numbers and values read from a parsed response\<close>

text \<open>
  A JavaScript number: \<^verbatim>\<open>NaN\<close>, an infinity, or a finite value, given by the rational it
  denotes. The operations below only compare numbers, so rounding plays no part; the two
  zeros are one value.
\<close>

datatype jsnum = NaN | NegInf | Fin rat | PosInf

text \<open>
  What \<^verbatim>\<open>JSON.parse\<close> leaves in a field that the code reads as a number or a string: nothing
  (\<^verbatim>\<open>undefined\<close>), or a JSON primitive. A field that holds an array or an object is outside
  the model.
\<close>

datatype jsval = JUndefined | JNull | JBool bool | JNum jsnum | JStr string

fun js_less :: "jsnum \<Rightarrow> jsnum \<Rightarrow> bool" where
  "js_less NaN _ = False"
| "js_less _ NaN = False"
| "js_less _ NegInf = False"
| "js_less NegInf _ = True"
| "js_less PosInf _ = False"
| "js_less _ PosInf = True"
| "js_less (Fin a) (Fin b) = (a < b)"

definition Math_min :: "jsnum \<Rightarrow> jsnum \<Rightarrow> jsnum" where
  "Math_min a b = (if a = NaN \<or> b = NaN then NaN else if js_less b a then b else a)"

definition Math_max :: "jsnum \<Rightarrow> jsnum \<Rightarrow> jsnum" where
  "Math_max a b = (if a = NaN \<or> b = NaN then NaN else if js_less a b then b else a)"

definition isDigit :: "char \<Rightarrow> bool" where
  "isDigit c \<longleftrightarrow> 48 \<le> (of_char c :: nat) \<and> (of_char c :: nat) \<le> 57"

text \<open>The value of a character as a digit in a base up to 16, if it is one.\<close>

definition digitValue :: "char \<Rightarrow> nat option" where
  "digitValue c =
     (let n = of_char c :: nat in
      if 48 \<le> n \<and> n \<le> 57 then Some (n - 48)
      else if 97 \<le> n \<and> n \<le> 102 then Some (n - 87)
      else if 65 \<le> n \<and> n \<le> 70 then Some (n - 55)
      else None)"

fun digitsValue :: "nat \<Rightarrow> nat \<Rightarrow> string \<Rightarrow> nat option" where
  "digitsValue base acc [] = Some acc"
| "digitsValue base acc (c # cs) =
     (case digitValue c of
        None \<Rightarrow> None
      | Some d \<Rightarrow> if d < base then digitsValue base (acc * base + d) cs else None)"

definition numeral_in_base :: "nat \<Rightarrow> string \<Rightarrow> jsnum" where
  "numeral_in_base base ds =
     (if ds = [] then NaN
      else (case digitsValue base 0 ds of None \<Rightarrow> NaN | Some n \<Rightarrow> Fin (of_nat n)))"

definition split_sign :: "string \<Rightarrow> bool \<times> string" where
  "split_sign s =
     (case s of
        [] \<Rightarrow> (False, [])
      | c # cs \<Rightarrow> if c = CHR ''-'' then (True, cs) else if c = CHR ''+'' then (False, cs) else (False, s))"

definition scale10 :: "rat \<Rightarrow> int \<Rightarrow> rat" where
  "scale10 m e = (if 0 \<le> e then m * 10 ^ nat e else m / 10 ^ nat (- e))"

text \<open>
  An unsigned decimal literal: digits with an optional fraction, or a fraction alone, and
  an optional exponent.
\<close>

definition unsignedDecimal :: "string \<Rightarrow> rat option" where
  "unsignedDecimal s =
     (let ip = takeWhile isDigit s;
          r1 = dropWhile isDigit s;
          dot = (r1 \<noteq> [] \<and> hd r1 = CHR ''.'');
          fp = (if dot then takeWhile isDigit (tl r1) else []);
          r2 = (if dot then dropWhile isDigit (tl r1) else r1);
          mant = (case digitsValue 10 0 (ip @ fp) of None \<Rightarrow> 0 | Some n \<Rightarrow> n)
      in if ip = [] \<and> fp = [] then None
         else if r2 = [] then Some (scale10 (of_nat mant) (- int (length fp)))
         else if hd r2 = CHR ''e'' \<or> hd r2 = CHR ''E'' then
           (let (neg, ds) = split_sign (tl r2) in
            if ds = [] then None
            else (case digitsValue 10 0 ds of
                    None \<Rightarrow> None
                  | Some e \<Rightarrow>
                      Some (scale10 (of_nat mant)
                              ((if neg then - int e else int e) - int (length fp)))))
         else None)"

text \<open>
  The abstract operation StringToNumber of ECMAScript: trim the text; the empty text is 0;
  a binary, octal or hexadecimal integer literal has no sign; otherwise an optional sign
  and either \<^verbatim>\<open>Infinity\<close> or an unsigned decimal literal; anything else is \<^verbatim>\<open>NaN\<close>.
\<close>

definition StringToNumber :: "string \<Rightarrow> jsnum" where
  "StringToNumber str =
     (let s = js_trim str in
      if s = [] then Fin 0
      else if startsWith s ''0x'' \<or> startsWith s ''0X'' then numeral_in_base 16 (drop 2 s)
      else if startsWith s ''0o'' \<or> startsWith s ''0O'' then numeral_in_base 8 (drop 2 s)
      else if startsWith s ''0b'' \<or> startsWith s ''0B'' then numeral_in_base 2 (drop 2 s)
      else (let (neg, u) = split_sign s in
            if u = ''Infinity'' then (if neg then NegInf else PosInf)
            else (case unsignedDecimal u of
                    None \<Rightarrow> NaN
                  | Some q \<Rightarrow> Fin (if neg then - q else q))))"

fun ToNumber :: "jsval \<Rightarrow> jsnum" where
  "ToNumber JUndefined = NaN"
| "ToNumber JNull = Fin 0"
| "ToNumber (JBool b) = Fin (if b then 1 else 0)"
| "ToNumber (JNum n) = n"
| "ToNumber (JStr s) = StringToNumber s"

text \<open>The values that count as false: \<^verbatim>\<open>x || 0\<close> is 0 for them and \<open>x\<close> otherwise.\<close>

fun falsy :: "jsval \<Rightarrow> bool" where
  "falsy JUndefined = True"
| "falsy JNull = True"
| "falsy (JBool b) = (\<not> b)"
| "falsy (JNum n) = (n = NaN \<or> n = Fin 0)"
| "falsy (JStr s) = (s = [])"

definition or_zero :: "jsval \<Rightarrow> jsval" where
  "or_zero v = (if falsy v then JNum (Fin 0) else v)"

subsection \<open>analyzeScriptOutput\<close>

text \<open>
  The object that \<^verbatim>\<open>JSON.parse\<close> returns for the analysis, and what the remote call does:
  it rejects (\<open>Inl\<close>), or it resolves with a text that \<^verbatim>\<open>JSON.parse\<close> refuses
  (\<open>Inr None\<close>) or turns into an object (\<open>Inr (Some r)\<close>).
\<close>

record AnalysisResult =
  analysisText :: jsval
  securityScore :: jsval

definition invalidAnalysis :: thrown where
  "invalidAnalysis =
     ErrorObj ''Invalid Response: The analysis data from the API was malformed and could not be parsed.''"

definition analyzeScriptOutput ::
  "bool \<Rightarrow> (string \<Rightarrow> thrown + AnalysisResult option) \<Rightarrow> string \<Rightarrow> thrown + AnalysisResult"
where
  "analyzeScriptOutput apiKey remote output =
     (if \<not> apiKey then Inl configurationError
      else (case remote output of
              Inl error \<Rightarrow> Inl (handleApiError error ''output analysis'')
            | Inr None \<Rightarrow> Inl (handleApiError invalidAnalysis ''output analysis'')
            | Inr (Some result) \<Rightarrow>
                Inr (case securityScore result of
                       JNum n \<Rightarrow>
                         if js_less n (Fin 0) \<or> js_less (Fin 100) n
                         then result\<lparr>securityScore :=
                                 JNum (Math_max (Fin 0)
                                   (Math_min (Fin 100) (ToNumber (or_zero (JNum n)))))\<rparr>
                         else result
                     | v \<Rightarrow>
                         result\<lparr>securityScore :=
                           JNum (Math_max (Fin 0) (Math_min (Fin 100) (ToNumber (or_zero v))))\<rparr>)))"

subsection \<open>runShellcheckAndLearn\<close>

record RefinedPrompt =
  rp_id :: string
  newPrompt :: string

text \<open>
  The parsed improvement: \<^verbatim>\<open>correctedScript\<close> as it was read (cleaning it throws a
  \<^verbatim>\<open>TypeError\<close> unless it is a string), \<^verbatim>\<open>improvementSummary\<close> as \<open>None\<close> when it is
  not an array.
\<close>

record ImprovementJson =
  json_correctedScript :: jsval
  json_refinedPrompts :: "RefinedPrompt list"
  json_improvementSummary :: "string list option"

record ImprovementResult =
  correctedScript :: string
  refinedPrompts :: "RefinedPrompt list"
  resultSummary :: "string list"

definition invalidImprovement :: thrown where
  "invalidImprovement =
     ErrorObj ''Invalid Response: The script improvement data from the API was malformed and could not be parsed.''"

definition runShellcheckAndLearn ::
  "bool \<Rightarrow> (string \<Rightarrow> (string \<times> string) list \<Rightarrow> thrown + ImprovementJson option) \<Rightarrow>
   string \<Rightarrow> HardeningOption list \<Rightarrow> thrown + ImprovementResult"
where
  "runShellcheckAndLearn apiKey remote originalScript activeOptions =
     (if \<not> apiKey then Inl configurationError
      else
        (let originalPrompts = map (\<lambda>opt. (opt_id opt, prompt opt)) activeOptions in
         case remote originalScript originalPrompts of
           Inl error \<Rightarrow> Inl (handleApiError error ''script improvement'')
         | Inr None \<Rightarrow> Inl (handleApiError invalidImprovement ''script improvement'')
         | Inr (Some r) \<Rightarrow>
             (case json_correctedScript r of
                JStr script \<Rightarrow>
                  Inr \<lparr>correctedScript = cleanScriptOutput script,
                       refinedPrompts = json_refinedPrompts r,
                       resultSummary = (case json_improvementSummary r of
                                          None \<Rightarrow> []
                                        | Some xs \<Rightarrow> xs)\<rparr>
              | _ \<Rightarrow> Inl (handleApiError invalidImprovement ''script improvement''))))"

section \<open>Application state (App.tsx)\<close>

record GenerationStatus =
  totalSteps :: nat
  currentStep :: nat
  statusMessage :: string

text \<open>
  The state that the two flows read and write. \<open>catalog\<close> holds the option objects of
  \<^verbatim>\<open>allOptionsFromLevels\<close>: they are module state, and the improvement flow assigns to their
  \<^verbatim>\<open>prompt\<close> field. \<open>improvedPromptIds\<close> is a \<^verbatim>\<open>Set\<close>, kept as the list of its members in
  insertion order.

  In the source the elements of \<^verbatim>\<open>lastActiveOptions\<close> and the values of \<^verbatim>\<open>idToOptionMap\<close>
  are those same objects, so that a successful improvement also changes the prompts seen
  through them. Here they are values: \<open>lastActiveOptions\<close> keeps the prompts of the run that
  set it, and through \<^verbatim>\<open>idToOptionMap\<close> only ids, children and reboot flags are read, which
  are never assigned to. No statement below reads \<open>lastActiveOptions\<close> after a successful
  improvement.
\<close>

record AppState =
  selectedOptions :: SelectedOptions
  customPrompt :: string
  customExclusions :: string
  generatedScript :: string
  isLoading :: bool
  error :: "string option"
  generationStatus :: "GenerationStatus option"
  lastActiveOptions :: "HardeningOption list"
  isRebootRecommended :: bool
  isImproving :: bool
  improvingError :: "string option"
  improvedScript :: string
  improvementSummary :: "string list"
  improvedPromptIds :: "string list"
  showImprovementSuccess :: bool
  catalog :: "HardeningOption list"

definition MAX_CUSTOM_PROMPT_LENGTH :: nat where
  "MAX_CUSTOM_PROMPT_LENGTH = 1000"

definition isPromptTooLong :: "'a AppState_scheme \<Rightarrow> bool" where
  "isPromptTooLong st \<longleftrightarrow> length (customPrompt st) > MAX_CUSTOM_PROMPT_LENGTH"

text \<open>\<^verbatim>\<open>Object.values(selectedOptions).some(Boolean) || customPrompt.trim() !== ''\<close>.\<close>

definition isAnyOptionSelected :: "'a AppState_scheme \<Rightarrow> bool" where
  "isAnyOptionSelected st \<longleftrightarrow>
     list_ex (\<lambda>v. v) (map snd (selectedOptions st)) \<or> js_trim (customPrompt st) \<noteq> []"

section \<open>Script assembly pipeline (App.tsx, handleGenerateScript)\<close>

text \<open>The pseudo-option that carries the free-text request.\<close>

definition customOption :: "string \<Rightarrow> string \<Rightarrow> HardeningOption" where
  "customOption custom exclusions =
     (let finalCustomPrompt = ''*   **Custom Request**: '' @ js_trim custom;
          finalCustomPrompt' =
            (if js_trim exclusions \<noteq> [] then
               finalCustomPrompt @ [CHR 0x0A] @
               ''    *   **IMPORTANT EXCLUSIONS**: The user has specified that the following items MUST be excluded from this custom task: `'' @
               js_trim exclusions @
               ''`. For example, if the request is to '' @ [CHR 0x22] @ ''disable all services'' @
               [CHR 0x22] @ '' and the exclusion is '' @ [CHR 0x22] @ ''sshd'' @ [CHR 0x22] @
               '', your script must NOT disable the sshd service. Honor these exclusions strictly.''
             else finalCustomPrompt)
      in HardeningOption ''custom'' ''Custom Requirement'' ''User-defined custom prompt.''
           finalCustomPrompt' None None)"

definition activeOptions_of :: "'a AppState_scheme \<Rightarrow> HardeningOption list" where
  "activeOptions_of st =
     filter (\<lambda>option. truthy (selectedOptions st) (opt_id option) \<and> prompt option \<noteq> [])
       (catalog st)
     @ (if js_trim (customPrompt st) \<noteq> []
        then [customOption (customPrompt st) (customExclusions st)] else [])"

definition rebootNeeded_of :: "IdToOptionMap \<Rightarrow> HardeningOption list \<Rightarrow> bool" where
  "rebootNeeded_of idm activeOptions =
     list_ex (\<lambda>option. case map_of idm (opt_id option) of
                          None \<Rightarrow> False
                        | Some fullOptionData \<Rightarrow> rebootRequired fullOptionData = Some True)
       activeOptions"

text \<open>
  The local variables of one run, next to the state: the step counter, the script built so
  far, and the gateway calls dispatched so far, in order.
\<close>

record Run = AppState +
  stepCounter :: nat
  fullScript :: string
  calls :: "call list"

text \<open>
  \<^verbatim>\<open>updateProgress\<close>. \<open>joke\<close> gives the text that \<^verbatim>\<open>Math.random\<close> picks from
  \<^verbatim>\<open>JOKES\<close> at each step.
\<close>

definition updateProgress :: "(nat \<Rightarrow> string) \<Rightarrow> nat \<Rightarrow> string \<Rightarrow> Run \<Rightarrow> Run" where
  "updateProgress joke nSteps stepMessage r =
     (let step = stepCounter r + 1;
          msg = stepMessage @ [CHR 0x0A, CHR 0x0A, CHR 0x22] @ joke step @ [CHR 0x22]
      in r\<lparr>stepCounter := step,
             generationStatus :=
               Some \<lparr>totalSteps = nSteps, currentStep = step, statusMessage = msg\<rparr>\<rparr>)"

text \<open>
  One awaited gateway call: the call is recorded as dispatched, and its outcome is either
  the value thrown or the text, which is added to the script and shown.
\<close>

definition awaitStep :: "gateway \<Rightarrow> call \<Rightarrow> string \<Rightarrow> Run \<Rightarrow> thrown + Run" where
  "awaitStep gw c separator r =
     (case gw (calls r) c of
        Inl e \<Rightarrow> Inl e
      | Inr text \<Rightarrow>
          Inr (r\<lparr>calls := calls r @ [c],
                  fullScript := fullScript r @ text @ separator,
                  generatedScript := fullScript r @ text @ separator\<rparr>))"

text \<open>
  The body of the \<^verbatim>\<open>try\<close> block from the sections on. A failure returns the value thrown
  together with the run as it stands when the \<^verbatim>\<open>catch\<close> block is entered.
\<close>

primrec generateSections ::
  "gateway \<Rightarrow> (nat \<Rightarrow> string) \<Rightarrow> nat \<Rightarrow> HardeningOption list \<Rightarrow> Run \<Rightarrow> thrown option \<times> Run"
where
  "generateSections gw joke nSteps [] r = (None, r)"
| "generateSections gw joke nSteps (option # rest) r =
     (let r1 = updateProgress joke nSteps
                 (''Step '' @ digits_of (stepCounter r + 1) @ '': Generating '' @ [CHR 0x27] @
                  label option @ [CHR 0x27] @ '' section...'') r
      in case awaitStep gw (CallSection option) [CHR 0x0A, CHR 0x0A] r1 of
           Inl e \<Rightarrow> (Some e, r1\<lparr>calls := calls r1 @ [CallSection option]\<rparr>)
         | Inr r2 \<Rightarrow> generateSections gw joke nSteps rest r2)"

definition tryBlock ::
  "gateway \<Rightarrow> (nat \<Rightarrow> string) \<Rightarrow> nat \<Rightarrow> HardeningOption list \<Rightarrow> Run \<Rightarrow> thrown option \<times> Run"
where
  "tryBlock gw joke nSteps activeOptions r0 =
     (let r1 = r0\<lparr>generationStatus :=
                    Some \<lparr>totalSteps = nSteps, currentStep = 0,
                          statusMessage = ''Initializing generation...''\<rparr>\<rparr>;
          r2 = updateProgress joke nSteps ''Step 1: Generating script header and helpers...'' r1
      in case awaitStep gw CallHeader [CHR 0x0A, CHR 0x0A] r2 of
           Inl e \<Rightarrow> (Some e, r2\<lparr>calls := calls r2 @ [CallHeader]\<rparr>)
         | Inr r3 \<Rightarrow>
             (case generateSections gw joke nSteps activeOptions r3 of
                (Some e, r4) \<Rightarrow> (Some e, r4)
              | (None, r4) \<Rightarrow>
                  (let r5 = updateProgress joke nSteps
                              (''Step '' @ digits_of nSteps @ '': Adding script footer...'') r4
                   in case awaitStep gw CallFooter [CHR 0x0A] r5 of
                        Inl e \<Rightarrow> (Some e, r5\<lparr>calls := calls r5 @ [CallFooter]\<rparr>)
                      | Inr r6 \<Rightarrow> (None, r6))))"

text \<open>
  \<^verbatim>\<open>handleGenerateScript\<close>: the state when the handler has finished, and the gateway calls
  it dispatched. \<open>idm\<close> is \<^verbatim>\<open>idToOptionMap\<close>.
\<close>

definition handleGenerateScript ::
  "gateway \<Rightarrow> (nat \<Rightarrow> string) \<Rightarrow> IdToOptionMap \<Rightarrow> AppState \<Rightarrow> AppState \<times> call list"
where
  "handleGenerateScript gw joke idm st =
     (if isPromptTooLong st \<or> \<not> isAnyOptionSelected st then (st, [])
      else
        (let st1 = st\<lparr>isLoading := True, error := None, generatedScript := [],
                       improvedScript := [], improvementSummary := [],
                       isRebootRecommended := False\<rparr>;
             activeOptions = activeOptions_of st;
             st2 = st1\<lparr>lastActiveOptions := activeOptions,
                        isRebootRecommended := rebootNeeded_of idm activeOptions\<rparr>;
             nSteps = length activeOptions + 2;
             r0 = AppState.extend st2 \<lparr>stepCounter = 0, fullScript = [], calls = []\<rparr>;
             (failure, r) = tryBlock gw joke nSteps activeOptions r0;
             caught = (case failure of
                         None \<Rightarrow> r
                       | Some e \<Rightarrow>
                           r\<lparr>error := Some (case e of
                                             ErrorObj m \<Rightarrow> m
                                           | NonError \<Rightarrow>
                                               ''An unknown error occurred during script generation.''),
                              generationStatus := None\<rparr>);
             final = caught\<lparr>isLoading := False, generationStatus := None\<rparr>
         in (AppState.truncate final, calls final)))"

section \<open>Improvement feedback loop (App.tsx, handleRunShellcheck)\<close>

text \<open>
  \<^verbatim>\<open>allOptionsFromLevels.find(opt => opt.id === id)\<close> followed by the assignment to the
  \<^verbatim>\<open>prompt\<close> of the object found: the first option with that id takes the new prompt.
\<close>

fun assignPrompt :: "string \<Rightarrow> string \<Rightarrow> HardeningOption list \<Rightarrow> HardeningOption list" where
  "assignPrompt i p [] = []"
| "assignPrompt i p (HardeningOption i' l d p' s r # rest) =
     (if i' = i then HardeningOption i' l d p s r # rest
      else HardeningOption i' l d p' s r # assignPrompt i p rest)"

definition set_add :: "string \<Rightarrow> string list \<Rightarrow> string list" where
  "set_add x xs = (if x \<in> set xs then xs else xs @ [x])"

definition applyRefined ::
  "HardeningOption list \<times> string list \<Rightarrow> RefinedPrompt \<Rightarrow> HardeningOption list \<times> string list"
where
  "applyRefined acc refined =
     (case acc of (cat, ids) \<Rightarrow>
        if list_ex (\<lambda>opt. opt_id opt = rp_id refined) cat
        then (assignPrompt (rp_id refined) (newPrompt refined) cat, set_add (rp_id refined) ids)
        else (cat, ids))"

definition handleRunShellcheck ::
  "bool \<Rightarrow> (string \<Rightarrow> (string \<times> string) list \<Rightarrow> thrown + ImprovementJson option) \<Rightarrow>
   AppState \<Rightarrow> AppState"
where
  "handleRunShellcheck apiKey remote st =
     (if js_trim (generatedScript st) = [] \<or> \<not> startsWith (js_trim (generatedScript st)) ''#!''
      then st\<lparr>improvingError :=
                 Some ''A valid script with a shebang (e.g., #!/bin/bash) must be generated on the first tab before running ShellCheck.''\<rparr>
      else
        (let st1 = st\<lparr>isImproving := True, improvingError := None, improvedScript := [],
                       improvementSummary := []\<rparr>;
             learnableOptions = filter (\<lambda>opt. opt_id opt \<noteq> ''custom'') (lastActiveOptions st);
             st2 = (case runShellcheckAndLearn apiKey remote (generatedScript st) learnableOptions of
                      Inl e \<Rightarrow>
                        st1\<lparr>improvingError :=
                              Some (case e of
                                      ErrorObj m \<Rightarrow> m
                                    | NonError \<Rightarrow>
                                        ''An unknown error occurred during script refinement.'')\<rparr>
                    | Inr result \<Rightarrow>
                        (let st' = st1\<lparr>improvedScript := correctedScript result,
                                        improvementSummary := resultSummary result\<rparr>
                         in if refinedPrompts result \<noteq> [] then
                              (case foldl applyRefined (catalog st', improvedPromptIds st)
                                      (refinedPrompts result) of
                                 (cat, ids) \<Rightarrow>
                                   st'\<lparr>showImprovementSuccess := True, catalog := cat,
                                       improvedPromptIds := ids\<rparr>)
                            else st'))
         in st2\<lparr>isImproving := False\<rparr>))"

text \<open>The state when the application starts.\<close>

definition initialState :: AppState where
  "initialState =
     \<lparr>selectedOptions = initialSelections, customPrompt = [], customExclusions = [],
      generatedScript = [], isLoading = False, error = None, generationStatus = None,
      lastActiveOptions = [], isRebootRecommended = False, isImproving = False,
      improvingError = None, improvedScript = [], improvementSummary = [],
      improvedPromptIds = [], showImprovementSuccess = False,
      catalog = allOptionsFromLevels\<rparr>"

section \<open>Notions used in the statements\<close>

text \<open>
  The calls that a run over a list of active options is to make, in order; the calls of a
  list being answered with given texts when they are dispatched one after the other; and
  the script that a list of texts adds up to, each followed by a blank line.
\<close>

definition plannedCalls :: "HardeningOption list \<Rightarrow> call list" where
  "plannedCalls os = CallHeader # map CallSection os @ [CallFooter]"

fun answered :: "gateway \<Rightarrow> call list \<Rightarrow> call list \<Rightarrow> string list \<Rightarrow> bool" where
  "answered gw sent [] texts = (texts = [])"
| "answered gw sent (c # cs) texts =
     (case texts of [] \<Rightarrow> False | t # ts \<Rightarrow> gw sent c = Inr t \<and> answered gw (sent @ [c]) cs ts)"

definition joined :: "string list \<Rightarrow> string" where
  "joined texts = concat (map (\<lambda>t. t @ [CHR 0x0A, CHR 0x0A]) texts)"

text \<open>Every option of the catalog: the trees of all levels, flattened in preorder.\<close>

definition allCatalogOptions :: "ParanoiaLevel list \<Rightarrow> HardeningOption list" where
  "allCatalogOptions levels = concat (map (getAllOptionsRecursively \<circ> options) levels)"

text \<open>
  The tri-state closure of a selection state over a list of options: every option with
  children is selected if and only if each of its direct children is.
\<close>

definition tri_state_closed :: "HardeningOption list \<Rightarrow> SelectedOptions \<Rightarrow> bool" where
  "tri_state_closed opts sel =
     list_all (\<lambda>opt. case subOptions opt of
                       None \<Rightarrow> True
                     | Some subs \<Rightarrow>
                         subs = [] \<or>
                         truthy sel (opt_id opt) = list_all (\<lambda>sub. truthy sel (opt_id sub)) subs)
       opts"

text \<open>
  The direct children of an option; the writes that \<^verbatim>\<open>buildLookups\<close> makes to the two
  Maps over a forest, in order; and a catalog that is well formed: the ids of its options
  are distinct and none is the empty text.
\<close>

definition children :: "HardeningOption \<Rightarrow> HardeningOption list" where
  "children opt = (case subOptions opt of None \<Rightarrow> [] | Some subs \<Rightarrow> subs)"

fun parent_pairs :: "HardeningOption list \<Rightarrow> string option \<Rightarrow> (string \<times> string) list" where
  "parent_pairs [] parentId = []"
| "parent_pairs (HardeningOption i l d p s r # rest) parentId =
     (case parentId of None \<Rightarrow> [] | Some pid \<Rightarrow> if pid \<noteq> [] then [(i, pid)] else [])
     @ (case s of None \<Rightarrow> [] | Some subs \<Rightarrow> parent_pairs subs (Some i))
     @ parent_pairs rest parentId"

definition id_pairs :: "HardeningOption list \<Rightarrow> (string \<times> HardeningOption) list" where
  "id_pairs os = map (\<lambda>opt. (opt_id opt, opt)) (getAllOptionsRecursively os)"

definition set_each :: "('k \<times> 'v) list \<Rightarrow> ('k \<times> 'v) list \<Rightarrow> ('k \<times> 'v) list" where
  "set_each m kvs = foldl (\<lambda>m kv. js_set (fst kv) (snd kv) m) m kvs"

definition wf_catalog :: "HardeningOption list \<Rightarrow> bool" where
  "wf_catalog roots \<longleftrightarrow>
     distinct (map opt_id (getAllOptionsRecursively roots))
     \<and> [] \<notin> opt_id ` set (getAllOptionsRecursively roots)"

text \<open>An option is closed in a selection state when it obeys the tri-state rule.\<close>

definition closed_at :: "SelectedOptions \<Rightarrow> HardeningOption \<Rightarrow> bool" where
  "closed_at sel opt \<longleftrightarrow>
     children opt = [] \<or>
     truthy sel (opt_id opt) = list_all (\<lambda>sub. truthy sel (opt_id sub)) (children opt)"

text \<open>
  The state of the application after the given leaf options were ticked one after the
  other, and four gateways: one that answers every call; one that answers the header,
  section and footer calls of a run over one option with \<^verbatim>\<open>H\<close>, \<^verbatim>\<open>S\<close> and \<^verbatim>\<open>F\<close> when each
  is dispatched after exactly the calls before it have resolved, and fails otherwise; one
  whose section call for \<^verbatim>\<open>ssh\<close> fails; one whose footer call fails.
\<close>

definition selectedState :: "string list \<Rightarrow> AppState" where
  "selectedState ids =
     initialState\<lparr>selectedOptions := foldl (\<lambda>sel i. js_set i True sel) initialSelections ids\<rparr>"

definition gatewayHSF :: gateway where
  "gatewayHSF = (\<lambda>sent c. case c of
                    CallHeader \<Rightarrow> Inr ''H''
                  | CallSection opt \<Rightarrow> Inr ''S''
                  | CallFooter \<Rightarrow> Inr ''F'')"

definition networkError :: thrown where
  "networkError =
     ErrorObj ''Network Error: Could not connect to the API. Please check your internet connection.''"

definition gatewayInOrder :: "HardeningOption \<Rightarrow> gateway" where
  "gatewayInOrder option = (\<lambda>sent c. case c of
        CallHeader \<Rightarrow> if sent = [] then Inr ''H'' else Inl networkError
      | CallSection opt \<Rightarrow>
          if sent = [CallHeader] \<and> opt = option then Inr ''S'' else Inl networkError
      | CallFooter \<Rightarrow>
          if sent = [CallHeader, CallSection option] then Inr ''F'' else Inl networkError)"

definition gatewaySshFails :: gateway where
  "gatewaySshFails = (\<lambda>sent c. case c of
                         CallHeader \<Rightarrow> Inr ''H''
                       | CallSection opt \<Rightarrow> if opt_id opt = ''ssh'' then Inl networkError else Inr ''S''
                       | CallFooter \<Rightarrow> Inr ''F'')"

definition gatewayFooterFails :: gateway where
  "gatewayFooterFails = (\<lambda>sent c. case c of
                            CallHeader \<Rightarrow> Inr ''H''
                          | CallSection opt \<Rightarrow> Inr ''S''
                          | CallFooter \<Rightarrow> Inl networkError)"

section \<open>Fence cleaning\<close>

lemmas clean_defs =
  cleanScriptOutput_def js_trim_def strip_close_def strip_open_def startsWith_def endsWith_def
  isWhiteSpace_def

lemma dropWhile_rev_head:
  "xs = [] \<or> \<not> P (hd xs) \<Longrightarrow>
   rev (dropWhile P (rev xs)) = [] \<or> \<not> P (hd (rev (dropWhile P (rev xs))))"
proof (induction xs rule: rev_induct)
  case Nil
  then show ?case by simp
next
  case (snoc x xs)
  show ?case
  proof (cases "P x")
    case True
    have "xs = [] \<or> \<not> P (hd xs)"
      using snoc.prems by (cases xs) auto
    with snoc.IH True show ?thesis by simp
  next
    case False
    with snoc.prems show ?thesis by simp
  qed
qed

lemma js_trim_idem: "js_trim (js_trim s) = js_trim s"
proof -
  let ?t = "dropWhile isWhiteSpace s"
  let ?u = "rev (dropWhile isWhiteSpace (rev ?t))"
  have t: "?t = [] \<or> \<not> isWhiteSpace (hd ?t)"
    by (metis hd_dropWhile)
  have u: "?u = [] \<or> \<not> isWhiteSpace (hd ?u)"
    by (rule dropWhile_rev_head [where P = isWhiteSpace and xs = "?t", OF t])
  have 1: "dropWhile isWhiteSpace ?u = ?u"
    using u by (simp add: dropWhile_eq_self_iff)
  have r: "dropWhile isWhiteSpace (rev ?t) = []
           \<or> \<not> isWhiteSpace (hd (dropWhile isWhiteSpace (rev ?t)))"
    by (metis hd_dropWhile)
  have 2: "dropWhile isWhiteSpace (rev ?u) = rev ?u"
    using r by (simp add: dropWhile_eq_self_iff)
  show ?thesis
    unfolding js_trim_def using 1 2 by simp
qed

text \<open>
  Claim C5, as amended. Cleaning strips one opening and one closing fence, once. Cleaning a
  second time changes nothing whenever the cleaned text neither begins nor ends with three
  backticks; and the text of a \<^verbatim>\<open>bash\<close> block holding \<^verbatim>\<open>foo\<close> is cleaned to \<^verbatim>\<open>foo\<close>.
\<close>

theorem cleanScriptOutput_idempotent_unfenced:
  "(\<not> startsWith (cleanScriptOutput x) ''```'' \<and> \<not> endsWith (cleanScriptOutput x) ''```''
      \<longrightarrow> cleanScriptOutput (cleanScriptOutput x) = cleanScriptOutput x)
   \<and> cleanScriptOutput (''```bash'' @ [CHR 0x0A] @ ''foo'' @ [CHR 0x0A] @ ''```'') = ''foo''"
proof (intro conjI impI)
  assume "\<not> startsWith (cleanScriptOutput x) ''```'' \<and> \<not> endsWith (cleanScriptOutput x) ''```''"
  then have "strip_close (strip_open (cleanScriptOutput x)) = cleanScriptOutput x"
    by (simp add: strip_open_def strip_close_def)
  then have "cleanScriptOutput (cleanScriptOutput x) = js_trim (cleanScriptOutput x)"
    by (simp add: cleanScriptOutput_def)
  also have "\<dots> = cleanScriptOutput x"
    by (simp add: cleanScriptOutput_def js_trim_idem)
  finally show "cleanScriptOutput (cleanScriptOutput x) = cleanScriptOutput x" .
next
  show "cleanScriptOutput (''```bash'' @ [CHR 0x0A] @ ''foo'' @ [CHR 0x0A] @ ''```'') = ''foo''"
    by (simp add: clean_defs)
qed

text \<open>The amended claim at a text with surrounding blanks and no fence.\<close>

theorem cleanScriptOutput_idempotent_unfenced_witness:
  "\<not> startsWith (cleanScriptOutput ''  echo hi  '') ''```''
   \<and> \<not> endsWith (cleanScriptOutput ''  echo hi  '') ''```''
   \<and> cleanScriptOutput (cleanScriptOutput ''  echo hi  '') = ''echo hi''"
proof -
  have c: "cleanScriptOutput ''  echo hi  '' = ''echo hi''"
    by (simp add: clean_defs)
  have s: "\<not> startsWith ''echo hi'' ''```''" "\<not> endsWith ''echo hi'' ''```''"
    by (simp_all add: startsWith_def endsWith_def)
  from cleanScriptOutput_idempotent_unfenced [of "''  echo hi  ''"] c s
  show ?thesis by simp
qed

text \<open>
  Claim C5 as stated fails: a text that opens with two fences loses one of them at each
  cleaning, so the second cleaning still changes the text.
\<close>

theorem cleanScriptOutput_not_idempotent:
  "cleanScriptOutput (cleanScriptOutput ''``````foo'') \<noteq> cleanScriptOutput ''``````foo''"
  by (simp add: clean_defs)

text \<open>
  A closing fence that is followed by a line break is not at the very end of the text, so
  it stays: here the first cleaning leaves it, and a second cleaning would remove it.
\<close>

lemma cleanScriptOutput_trailing_newline:
  "cleanScriptOutput (''```bash'' @ [CHR 0x0A] @ ''foo'' @ [CHR 0x0A] @ ''```'' @ [CHR 0x0A])
     = ''foo'' @ [CHR 0x0A] @ ''```''"
  by (simp add: clean_defs)

section \<open>Malformed responses\<close>

text \<open>
  Claim C1 says that when the remote call succeeds and its text cannot be parsed, analyze
  and improve fail with the malformed-response error, whose message begins with
  \<^verbatim>\<open>Invalid Response:\<close>. In the code that error is thrown inside the outer \<^verbatim>\<open>try\<close> block,
  so the outer \<^verbatim>\<open>catch\<close> hands it to \<^verbatim>\<open>handleApiError\<close>, which finds none of its key
  words in the message and returns the generic error: that is what both operations fail
  with.
\<close>

theorem malformed_response_reported_as_generic:
  "analyzeScriptOutput True (\<lambda>_. Inr None) output =
     Inl (ErrorObj ''An unexpected API error occurred during output analysis. Check the console for details.'')
   \<and> runShellcheckAndLearn True (\<lambda>_ _. Inr None) script opts =
     Inl (ErrorObj ''An unexpected API error occurred during script improvement. Check the console for details.'')"
  by (simp add: analyzeScriptOutput_def runShellcheckAndLearn_def handleApiError_def
      invalidAnalysis_def invalidImprovement_def toLowerCase_def toLowerChar_def startsWith_def)

section \<open>The security score\<close>

text \<open>
  Claim C6 says that the score that analyze returns is a number between 0 and 100 whatever
  the response carries. A score that is a text without a numeric reading passes the test
  \<^verbatim>\<open>typeof result.securityScore !== 'number'\<close>, is left alone by \<^verbatim>\<open>|| 0\<close> since it is not
  empty, and becomes \<^verbatim>\<open>NaN\<close> in \<^verbatim>\<open>Math.min\<close>: the score returned is \<^verbatim>\<open>NaN\<close>.
\<close>

theorem non_numeric_score_becomes_NaN:
  "analyzeScriptOutput True
     (\<lambda>_. Inr (Some \<lparr>analysisText = JStr ''ok'', securityScore = JStr ''high''\<rparr>)) output =
   Inr \<lparr>analysisText = JStr ''ok'', securityScore = JNum NaN\<rparr>"
  by (simp add: analyzeScriptOutput_def or_zero_def StringToNumber_def js_trim_def isWhiteSpace_def
      startsWith_def split_sign_def unsignedDecimal_def isDigit_def Math_min_def Math_max_def)

text \<open>
  For a score that is a number the clamp does what the claim says, and so it does for a
  score that is missing or \<^verbatim>\<open>null\<close>.
\<close>

lemma score_clamped_for_numbers:
  assumes "n \<noteq> NaN"
      and "analyzeScriptOutput True
             (\<lambda>_. Inr (Some \<lparr>analysisText = t, securityScore = JNum n\<rparr>)) output = Inr r"
  shows "\<exists>q. securityScore r = JNum (Fin q) \<and> 0 \<le> q \<and> q \<le> 100"
  using assms
  by (cases n) (auto simp add: analyzeScriptOutput_def or_zero_def Math_min_def Math_max_def)

lemma score_examples:
  "analyzeScriptOutput True
     (\<lambda>_. Inr (Some \<lparr>analysisText = t, securityScore = JNum (Fin 150)\<rparr>)) output =
   Inr \<lparr>analysisText = t, securityScore = JNum (Fin 100)\<rparr>"
  "analyzeScriptOutput True
     (\<lambda>_. Inr (Some \<lparr>analysisText = t, securityScore = JNum (Fin (- 10))\<rparr>)) output =
   Inr \<lparr>analysisText = t, securityScore = JNum (Fin 0)\<rparr>"
  "analyzeScriptOutput True
     (\<lambda>_. Inr (Some \<lparr>analysisText = t, securityScore = JUndefined\<rparr>)) output =
   Inr \<lparr>analysisText = t, securityScore = JNum (Fin 0)\<rparr>"
  "analyzeScriptOutput True
     (\<lambda>_. Inr (Some \<lparr>analysisText = t, securityScore = JNull\<rparr>)) output =
   Inr \<lparr>analysisText = t, securityScore = JNum (Fin 0)\<rparr>"
  by (simp_all add: analyzeScriptOutput_def or_zero_def Math_min_def Math_max_def)

section \<open>The generation run\<close>

lemma updateProgress_frame:
  "calls (updateProgress joke n m r) = calls r"
  "fullScript (updateProgress joke n m r) = fullScript r"
  "generatedScript (updateProgress joke n m r) = generatedScript r"
  "error (updateProgress joke n m r) = error r"
  by (simp_all add: updateProgress_def Let_def)

lemma awaitStep_Inr:
  "gw (calls r) c = Inr t \<Longrightarrow>
   awaitStep gw c sep r =
     Inr (r\<lparr>calls := calls r @ [c], fullScript := fullScript r @ t @ sep,
            generatedScript := fullScript r @ t @ sep\<rparr>)"
  by (simp add: awaitStep_def)

lemma awaitStep_Inl:
  "gw (calls r) c = Inl e \<Longrightarrow> awaitStep gw c sep r = Inl e"
  by (simp add: awaitStep_def)

lemma generateSections_ok:
  "answered gw (calls r) (map CallSection os) texts \<Longrightarrow> generatedScript r = fullScript r \<Longrightarrow>
   \<exists>r'. generateSections gw joke n os r = (None, r')
        \<and> calls r' = calls r @ map CallSection os
        \<and> fullScript r' = fullScript r @ joined texts
        \<and> generatedScript r' = fullScript r'
        \<and> error r' = error r"
proof (induction os arbitrary: r texts)
  case Nil
  then show ?case by (simp add: joined_def)
next
  case (Cons opt os)
  from Cons.prems(1) obtain t ts where texts: "texts = t # ts"
    and t: "gw (calls r) (CallSection opt) = Inr t"
    and ts: "answered gw (calls r @ [CallSection opt]) (map CallSection os) ts"
    by (cases texts) auto
  let ?m = "''Step '' @ digits_of (stepCounter r + 1) @ '': Generating '' @ [CHR 0x27] @
            label opt @ [CHR 0x27] @ '' section...''"
  let ?r1 = "updateProgress joke n ?m r"
  let ?r2 = "?r1\<lparr>calls := calls ?r1 @ [CallSection opt],
                   fullScript := fullScript ?r1 @ t @ [CHR 0x0A, CHR 0x0A],
                   generatedScript := fullScript ?r1 @ t @ [CHR 0x0A, CHR 0x0A]\<rparr>"
  have step: "awaitStep gw (CallSection opt) [CHR 0x0A, CHR 0x0A] ?r1 = Inr ?r2"
    using t by (intro awaitStep_Inr) (simp add: updateProgress_frame)
  have "answered gw (calls ?r2) (map CallSection os) ts"
    using ts by (simp add: updateProgress_frame)
  moreover have "generatedScript ?r2 = fullScript ?r2" by simp
  ultimately obtain r' where r': "generateSections gw joke n os ?r2 = (None, r')"
    "calls r' = calls ?r2 @ map CallSection os"
    "fullScript r' = fullScript ?r2 @ joined ts"
    "generatedScript r' = fullScript r'" "error r' = error ?r2"
    using Cons.IH by blast
  have "generateSections gw joke n (opt # os) r = (None, r')"
    using step r'(1) by (simp add: Let_def)
  then show ?case
    using r'(2-5) texts by (simp add: updateProgress_frame joined_def)
qed


lemma generateSections_fail:
  "answered gw (calls r) (map CallSection os1) texts \<Longrightarrow>
   gw (calls r @ map CallSection os1) (CallSection opt) = Inl e \<Longrightarrow>
   generatedScript r = fullScript r \<Longrightarrow>
   \<exists>r'. generateSections gw joke n (os1 @ opt # os2) r = (Some e, r')
        \<and> calls r' = calls r @ map CallSection os1 @ [CallSection opt]
        \<and> generatedScript r' = fullScript r @ joined texts"
proof (induction os1 arbitrary: r texts)
  case Nil
  let ?m = "''Step '' @ digits_of (stepCounter r + 1) @ '': Generating '' @ [CHR 0x27] @
            label opt @ [CHR 0x27] @ '' section...''"
  have "awaitStep gw (CallSection opt) [CHR 0x0A, CHR 0x0A] (updateProgress joke n ?m r) = Inl e"
    using Nil.prems(2) by (intro awaitStep_Inl) (simp add: updateProgress_frame)
  then show ?case
    using Nil.prems by (simp add: Let_def updateProgress_frame joined_def)
next
  case (Cons o1 os1)
  from Cons.prems(1) obtain t ts where texts: "texts = t # ts"
    and t: "gw (calls r) (CallSection o1) = Inr t"
    and ts: "answered gw (calls r @ [CallSection o1]) (map CallSection os1) ts"
    by (cases texts) auto
  let ?m = "''Step '' @ digits_of (stepCounter r + 1) @ '': Generating '' @ [CHR 0x27] @
            label o1 @ [CHR 0x27] @ '' section...''"
  let ?r1 = "updateProgress joke n ?m r"
  let ?r2 = "?r1\<lparr>calls := calls ?r1 @ [CallSection o1],
                   fullScript := fullScript ?r1 @ t @ [CHR 0x0A, CHR 0x0A],
                   generatedScript := fullScript ?r1 @ t @ [CHR 0x0A, CHR 0x0A]\<rparr>"
  have step: "awaitStep gw (CallSection o1) [CHR 0x0A, CHR 0x0A] ?r1 = Inr ?r2"
    using t by (intro awaitStep_Inr) (simp add: updateProgress_frame)
  have "answered gw (calls ?r2) (map CallSection os1) ts"
    using ts by (simp add: updateProgress_frame)
  moreover have "gw (calls ?r2 @ map CallSection os1) (CallSection opt) = Inl e"
    using Cons.prems(2) by (simp add: updateProgress_frame)
  moreover have "generatedScript ?r2 = fullScript ?r2" by simp
  ultimately obtain r' where r': "generateSections gw joke n (os1 @ opt # os2) ?r2 = (Some e, r')"
    "calls r' = calls ?r2 @ map CallSection os1 @ [CallSection opt]"
    "generatedScript r' = fullScript ?r2 @ joined ts"
    using Cons.IH by blast
  have "generateSections gw joke n ((o1 # os1) @ opt # os2) r = (Some e, r')"
    using step r'(1) by (simp add: Let_def)
  then show ?case
    using r'(2-3) texts by (simp add: updateProgress_frame joined_def)
qed

lemma split_sections:
  "map CallSection os @ [CallFooter] = earlier @ c # later \<Longrightarrow>
   (\<exists>os1 opt os2. os = os1 @ opt # os2 \<and> earlier = map CallSection os1 \<and> c = CallSection opt)
   \<or> (earlier = map CallSection os \<and> c = CallFooter)"
proof (induction os arbitrary: earlier)
  case Nil
  then show ?case by (cases earlier) auto
next
  case (Cons o1 os)
  show ?case
  proof (cases earlier)
    case Nil
    with Cons.prems have "c = CallSection o1" by simp
    with Nil show ?thesis by fastforce
  next
    case (Cons x earlier')
    with Cons.prems have x: "x = CallSection o1"
      and rest: "map CallSection os @ [CallFooter] = earlier' @ c # later"
      by simp_all
    from Cons.IH [OF rest] show ?thesis
    proof
      assume "\<exists>os1 opt os2. os = os1 @ opt # os2 \<and> earlier' = map CallSection os1 \<and> c = CallSection opt"
      then obtain os1 opt os2 where "os = os1 @ opt # os2" "earlier' = map CallSection os1"
        "c = CallSection opt" by blast
      then have "o1 # os = (o1 # os1) @ opt # os2 \<and> earlier = map CallSection (o1 # os1)
                 \<and> c = CallSection opt"
        using Cons x by simp
      then show ?thesis by blast
    next
      assume "earlier' = map CallSection os \<and> c = CallFooter"
      then show ?thesis using Cons x by simp
    qed
  qed
qed

lemma tryBlock_fail:
  assumes split: "plannedCalls os = earlier @ c # later"
      and before: "answered gw [] earlier texts"
      and fails: "gw earlier c = Inl e"
      and r0: "calls r0 = []" "fullScript r0 = []" "generatedScript r0 = []"
  shows "\<exists>r'. tryBlock gw joke n os r0 = (Some e, r')
              \<and> calls r' = earlier @ [c] \<and> generatedScript r' = joined texts"
proof (cases earlier)
  case Nil
  with split have c: "c = CallHeader" by (simp add: plannedCalls_def)
  from Nil before have texts: "texts = []" by simp
  let ?r1 = "r0\<lparr>generationStatus :=
                    Some \<lparr>totalSteps = n, currentStep = 0,
                          statusMessage = ''Initializing generation...''\<rparr>\<rparr>"
  let ?r2 = "updateProgress joke n ''Step 1: Generating script header and helpers...'' ?r1"
  have "awaitStep gw CallHeader [CHR 0x0A, CHR 0x0A] ?r2 = Inl e"
    using fails Nil c r0 by (intro awaitStep_Inl) (simp add: updateProgress_frame)
  then show ?thesis
    using Nil c texts r0 by (simp add: tryBlock_def Let_def updateProgress_frame joined_def)
next
  case (Cons h earlier')
  with split have h: "h = CallHeader"
    and rest: "map CallSection os @ [CallFooter] = earlier' @ c # later"
    by (simp_all add: plannedCalls_def)
  from before Cons h obtain t0 ts where texts: "texts = t0 # ts"
    and t0: "gw [] CallHeader = Inr t0"
    and ts: "answered gw [CallHeader] earlier' ts"
    by (cases texts) auto
  let ?r1 = "r0\<lparr>generationStatus :=
                    Some \<lparr>totalSteps = n, currentStep = 0,
                          statusMessage = ''Initializing generation...''\<rparr>\<rparr>"
  let ?r2 = "updateProgress joke n ''Step 1: Generating script header and helpers...'' ?r1"
  let ?r3 = "?r2\<lparr>calls := calls ?r2 @ [CallHeader],
                   fullScript := fullScript ?r2 @ t0 @ [CHR 0x0A, CHR 0x0A],
                   generatedScript := fullScript ?r2 @ t0 @ [CHR 0x0A, CHR 0x0A]\<rparr>"
  have header: "awaitStep gw CallHeader [CHR 0x0A, CHR 0x0A] ?r2 = Inr ?r3"
    using t0 r0 by (intro awaitStep_Inr) (simp add: updateProgress_frame)
  have r3: "calls ?r3 = [CallHeader]" "fullScript ?r3 = t0 @ [CHR 0x0A, CHR 0x0A]"
    "generatedScript ?r3 = fullScript ?r3"
    using r0 by (simp_all add: updateProgress_frame)
  from split_sections [OF rest] show ?thesis
  proof
    assume "\<exists>os1 opt os2. os = os1 @ opt # os2 \<and> earlier' = map CallSection os1 \<and> c = CallSection opt"
    then obtain os1 opt os2 where os: "os = os1 @ opt # os2"
      and e': "earlier' = map CallSection os1" and c: "c = CallSection opt" by blast
    have "answered gw (calls ?r3) (map CallSection os1) ts"
      using ts e' r3(1) by simp
    moreover have "gw (calls ?r3 @ map CallSection os1) (CallSection opt) = Inl e"
      using fails Cons h e' c r3(1) by simp
    ultimately obtain r' where r': "generateSections gw joke n (os1 @ opt # os2) ?r3 = (Some e, r')"
      "calls r' = calls ?r3 @ map CallSection os1 @ [CallSection opt]"
      "generatedScript r' = fullScript ?r3 @ joined ts"
      using generateSections_fail [OF _ _ r3(3)] by blast
    have "tryBlock gw joke n os r0 = (Some e, r')"
      using header r'(1) os by (simp add: tryBlock_def Let_def)
    moreover have "calls r' = earlier @ [c]"
      using r'(2) r3(1) Cons h e' c by simp
    moreover have "generatedScript r' = joined texts"
      using r'(3) r3(2) texts by (simp add: joined_def)
    ultimately show ?thesis by blast
  next
    assume "earlier' = map CallSection os \<and> c = CallFooter"
    then have e': "earlier' = map CallSection os" and c: "c = CallFooter" by simp_all
    have "answered gw (calls ?r3) (map CallSection os) ts"
      using ts e' r3(1) by simp
    then obtain r4 where r4: "generateSections gw joke n os ?r3 = (None, r4)"
      "calls r4 = calls ?r3 @ map CallSection os"
      "fullScript r4 = fullScript ?r3 @ joined ts"
      "generatedScript r4 = fullScript r4"
      using generateSections_ok [OF _ r3(3)] by blast
    let ?r5 = "updateProgress joke n (''Step '' @ digits_of n @ '': Adding script footer...'') r4"
    have "gw (calls ?r5) CallFooter = Inl e"
      using fails Cons h e' c r4(2) r3(1) by (simp add: updateProgress_frame)
    then have footer: "awaitStep gw CallFooter [CHR 0x0A] ?r5 = Inl e"
      by (rule awaitStep_Inl)
    have "tryBlock gw joke n os r0 = (Some e, ?r5\<lparr>calls := calls ?r5 @ [CallFooter]\<rparr>)"
      using header r4(1) footer by (simp add: tryBlock_def Let_def)
    moreover have "calls (?r5\<lparr>calls := calls ?r5 @ [CallFooter]\<rparr>) = earlier @ [c]"
      using r4(2) r3(1) Cons h e' c by (simp add: updateProgress_frame)
    moreover have "generatedScript (?r5\<lparr>calls := calls ?r5 @ [CallFooter]\<rparr>) = joined texts"
      using r4(3,4) r3(2) texts by (simp add: updateProgress_frame joined_def)
    ultimately show ?thesis by blast
  qed
qed

text \<open>
  Claim C2, as amended. In a run that passes the guard, let the planned calls be split at
  a call \<open>c\<close> that fails while every call before it is answered. Then the calls dispatched
  are those up to \<open>c\<close> and no later one, the error state holds the message of the failure,
  and loading and progress are cleared. The script state is then the text that the steps
  before \<open>c\<close> added up to.
\<close>

theorem failure_aborts_pipeline:
  assumes guard: "\<not> isPromptTooLong st" "isAnyOptionSelected st"
      and split: "plannedCalls (activeOptions_of st) = earlier @ c # later"
      and before: "answered gw [] earlier texts"
      and fails: "gw earlier c = Inl e"
  shows "snd (handleGenerateScript gw joke idm st) = earlier @ [c]
         \<and> error (fst (handleGenerateScript gw joke idm st)) =
             Some (case e of ErrorObj m \<Rightarrow> m
                   | NonError \<Rightarrow> ''An unknown error occurred during script generation.'')
         \<and> generatedScript (fst (handleGenerateScript gw joke idm st)) = joined texts
         \<and> isLoading (fst (handleGenerateScript gw joke idm st)) = False
         \<and> generationStatus (fst (handleGenerateScript gw joke idm st)) = None"
proof -
  let ?os = "activeOptions_of st"
  let ?st2 = "st\<lparr>isLoading := True, error := None, generatedScript := [],
                  improvedScript := [], improvementSummary := [],
                  isRebootRecommended := False,
                  lastActiveOptions := ?os,
                  isRebootRecommended := rebootNeeded_of idm ?os\<rparr>"
  let ?r0 = "AppState.extend ?st2 \<lparr>stepCounter = 0, fullScript = [], calls = []\<rparr>"
  have r0: "calls ?r0 = []" "fullScript ?r0 = []" "generatedScript ?r0 = []"
    by (simp_all add: AppState.defs)
  from tryBlock_fail [OF split before fails r0]
  obtain r' where r': "tryBlock gw joke (length ?os + 2) ?os ?r0 = (Some e, r')"
    "calls r' = earlier @ [c]" "generatedScript r' = joined texts"
    by blast
  show ?thesis
    using guard r' by (simp add: handleGenerateScript_def Let_def AppState.defs)
qed

section \<open>One active option\<close>

lemma truthy_list_ex: "truthy sel i \<Longrightarrow> list_ex (\<lambda>v. v) (map snd sel)"
proof -
  assume "truthy sel i"
  then have "(i, True) \<in> set sel"
    by (simp add: truthy_def map_of_SomeD)
  then have "True \<in> snd ` set sel" by force
  then show ?thesis by (simp add: list_ex_iff)
qed

lemma active_implies_selected:
  assumes "activeOptions_of st \<noteq> []"
  shows "isAnyOptionSelected st"
proof (cases "js_trim (customPrompt st) \<noteq> []")
  case True
  then show ?thesis by (simp add: isAnyOptionSelected_def)
next
  case False
  with assms obtain opt where "truthy (selectedOptions st) (opt_id opt)"
    by (auto simp add: activeOptions_of_def filter_empty_conv)
  then show ?thesis
    by (simp add: isAnyOptionSelected_def truthy_list_ex)
qed

text \<open>
  Claim C7. In a run with exactly one active option, let the header call return a text
  \<open>h\<close> when it is dispatched first, the section call return \<open>s\<close> when it is dispatched
  after the header call alone has resolved, and the footer call return \<open>f\<close> when it is
  dispatched after those two have resolved, in that order. Then the gateway is called three
  times, in the order header, section, footer, no error is set, and the final script is
  \<open>h\<close>, a blank line, \<open>s\<close>, a blank line, \<open>f\<close> and a line break: for \<^verbatim>\<open>H\<close>, \<^verbatim>\<open>S\<close> and \<^verbatim>\<open>F\<close>
  that is \<^verbatim>\<open>H\n\nS\n\nF\n\<close>. Nothing is assumed of the gateway at any other call or after
  any other calls.
\<close>

theorem single_option_run:
  assumes len: "\<not> isPromptTooLong st"
      and one: "activeOptions_of st = [option]"
      and H: "gw [] CallHeader = Inr h"
      and S: "gw [CallHeader] (CallSection option) = Inr s"
      and F: "gw [CallHeader, CallSection option] CallFooter = Inr f"
  shows "snd (handleGenerateScript gw joke idm st) = [CallHeader, CallSection option, CallFooter]
         \<and> generatedScript (fst (handleGenerateScript gw joke idm st)) =
             h @ [CHR 0x0A, CHR 0x0A] @ s @ [CHR 0x0A, CHR 0x0A] @ f @ [CHR 0x0A]
         \<and> error (fst (handleGenerateScript gw joke idm st)) = None"
proof -
  have sel: "isAnyOptionSelected st"
    using one by (intro active_implies_selected) simp
  show ?thesis
    using len sel one H S F
    by (simp add: handleGenerateScript_def tryBlock_def awaitStep_def updateProgress_def
        Let_def AppState.defs)
qed

section \<open>The guard of the generation flow\<close>

text \<open>
  Claim C10. The limit of the custom prompt is 1000 characters. When the custom prompt is
  longer, or when no option is selected and the trimmed custom prompt is empty, the
  generation flow returns at once: no gateway call is dispatched and the state is the one
  it started from.
\<close>

theorem generation_guard:
  assumes "length (customPrompt st) > 1000
           \<or> (\<not> list_ex (\<lambda>v. v) (map snd (selectedOptions st)) \<and> js_trim (customPrompt st) = [])"
  shows "MAX_CUSTOM_PROMPT_LENGTH = 1000 \<and> handleGenerateScript gw joke idm st = (st, [])"
  using assms
  by (auto simp add: handleGenerateScript_def isPromptTooLong_def isAnyOptionSelected_def
      MAX_CUSTOM_PROMPT_LENGTH_def)

section \<open>A failed improvement\<close>

text \<open>
  Claim C9. When the improve operation fails, the improvement flow puts the message of the
  failure in its error state and leaves the catalog as it was: every option keeps its
  prompt, and the set of improved ids is unchanged.
\<close>

theorem improvement_failure_keeps_catalog:
  assumes valid: "js_trim (generatedScript st) \<noteq> []"
                 "startsWith (js_trim (generatedScript st)) ''#!''"
      and fails: "runShellcheckAndLearn apiKey remote (generatedScript st)
                    (filter (\<lambda>opt. opt_id opt \<noteq> ''custom'') (lastActiveOptions st)) = Inl e"
  shows "improvingError (handleRunShellcheck apiKey remote st) =
           Some (case e of ErrorObj m \<Rightarrow> m
                 | NonError \<Rightarrow> ''An unknown error occurred during script refinement.'')
         \<and> catalog (handleRunShellcheck apiKey remote st) = catalog st
         \<and> improvedPromptIds (handleRunShellcheck apiKey remote st) = improvedPromptIds st"
  using valid fails
  by (simp add: handleRunShellcheck_def Let_def)

text \<open>The validation that precedes the call leaves the catalog alone as well.\<close>

lemma improvement_rejected_keeps_catalog:
  "js_trim (generatedScript st) = [] \<or> \<not> startsWith (js_trim (generatedScript st)) ''#!'' \<Longrightarrow>
   catalog (handleRunShellcheck apiKey remote st) = catalog st
   \<and> improvedPromptIds (handleRunShellcheck apiKey remote st) = improvedPromptIds st"
  by (auto simp add: handleRunShellcheck_def)

section \<open>Facts about the catalog\<close>

text \<open>
  The fields of the catalog constants, and the lookups evaluated on the catalog. The two
  container options \<^verbatim>\<open>systemAndPackages\<close> and \<^verbatim>\<open>networkSecurity\<close> stand at level 1 and
  again at level 2, with other children; each Map keeps the key at its first place and the
  object written last.
\<close>

lemmas allOptions_defs =
  allOptions_updates_def
  allOptions_firewall_def
  allOptions_ssh_def
  allOptions_fail2ban_def
  allOptions_passwordPolicy_def
  allOptions_userAccountManagement_def
  allOptions_sudoAudit_def
  allOptions_kernel_def
  allOptions_filesystem_def
  allOptions_logging_def
  allOptions_auditFileAccess_def
  allOptions_auditCommands_def
  allOptions_auditLogins_def
  allOptions_selinux_def
  allOptions_sshPort_def
  allOptions_umask_def
  allOptions_autoUpdates_def
  allOptions_disableFilesystems_def
  allOptions_bindCheck_def
  allOptions_grubPassword_def
  allOptions_iptablesAdvanced_def
  allOptions_iptablesBogon_def
  allOptions_iptablesPortKnocking_def
  allOptions_dnfSecurity_def
  allOptions_pciDss_def

lemmas parent_defs =
  systemAndPackagesParent_def
  networkSecurityParent_def
  userManagementParent_def
  systemInternalsParent_def
  serviceHardeningParent_def
  iptablesParent_def
  loggingParent_def
  bootAndFilesystemParent_def
  complianceParent_def

lemma catalog_opt_id:
  "opt_id allOptions_updates = ''updates''"
  "opt_id allOptions_firewall = ''firewall''"
  "opt_id allOptions_ssh = ''ssh''"
  "opt_id allOptions_fail2ban = ''fail2ban''"
  "opt_id allOptions_passwordPolicy = ''passwordPolicy''"
  "opt_id allOptions_userAccountManagement = ''userAccountManagement''"
  "opt_id allOptions_sudoAudit = ''sudoAudit''"
  "opt_id allOptions_kernel = ''kernel''"
  "opt_id allOptions_filesystem = ''filesystem''"
  "opt_id allOptions_logging = ''logging''"
  "opt_id allOptions_auditFileAccess = ''auditFileAccess''"
  "opt_id allOptions_auditCommands = ''auditCommands''"
  "opt_id allOptions_auditLogins = ''auditLogins''"
  "opt_id allOptions_selinux = ''selinux''"
  "opt_id allOptions_sshPort = ''sshPort''"
  "opt_id allOptions_umask = ''umask''"
  "opt_id allOptions_autoUpdates = ''autoUpdates''"
  "opt_id allOptions_disableFilesystems = ''disableFilesystems''"
  "opt_id allOptions_bindCheck = ''bindCheck''"
  "opt_id allOptions_grubPassword = ''grubPassword''"
  "opt_id allOptions_iptablesAdvanced = ''iptablesAdvanced''"
  "opt_id allOptions_iptablesBogon = ''iptablesBogon''"
  "opt_id allOptions_iptablesPortKnocking = ''iptablesPortKnocking''"
  "opt_id allOptions_dnfSecurity = ''dnfSecurity''"
  "opt_id allOptions_pciDss = ''pciDss''"
  by (simp_all add: allOptions_defs)

lemma catalog_parent_opt_id:
  "opt_id systemAndPackagesParent = ''systemAndPackages''"
  "opt_id networkSecurityParent = ''networkSecurity''"
  "opt_id userManagementParent = ''userManagement''"
  "opt_id systemInternalsParent = ''systemInternals''"
  "opt_id serviceHardeningParent = ''serviceHardening''"
  "opt_id iptablesParent = ''iptables''"
  "opt_id loggingParent = ''loggingParent''"
  "opt_id bootAndFilesystemParent = ''bootAndFilesystem''"
  "opt_id complianceParent = ''compliance''"
  by (simp_all add: parent_defs)

lemma catalog_subOptions:
  "subOptions allOptions_updates = None"
  "subOptions allOptions_firewall = None"
  "subOptions allOptions_ssh = None"
  "subOptions allOptions_fail2ban = None"
  "subOptions allOptions_passwordPolicy = None"
  "subOptions allOptions_userAccountManagement = None"
  "subOptions allOptions_sudoAudit = None"
  "subOptions allOptions_kernel = None"
  "subOptions allOptions_filesystem = None"
  "subOptions allOptions_logging = None"
  "subOptions allOptions_auditFileAccess = None"
  "subOptions allOptions_auditCommands = None"
  "subOptions allOptions_auditLogins = None"
  "subOptions allOptions_selinux = None"
  "subOptions allOptions_sshPort = None"
  "subOptions allOptions_umask = None"
  "subOptions allOptions_autoUpdates = None"
  "subOptions allOptions_disableFilesystems = None"
  "subOptions allOptions_bindCheck = None"
  "subOptions allOptions_grubPassword = None"
  "subOptions allOptions_iptablesAdvanced = None"
  "subOptions allOptions_iptablesBogon = None"
  "subOptions allOptions_iptablesPortKnocking = None"
  "subOptions allOptions_dnfSecurity = None"
  "subOptions allOptions_pciDss = None"
  by (simp_all add: allOptions_defs)

lemma catalog_parent_subOptions:
  "subOptions systemAndPackagesParent = Some [allOptions_updates, allOptions_autoUpdates, allOptions_dnfSecurity]"
  "subOptions networkSecurityParent = Some [allOptions_firewall, allOptions_ssh, allOptions_sshPort, allOptions_fail2ban]"
  "subOptions userManagementParent = Some [allOptions_passwordPolicy, allOptions_userAccountManagement, allOptions_sudoAudit, allOptions_umask]"
  "subOptions systemInternalsParent = Some [allOptions_kernel, allOptions_selinux]"
  "subOptions serviceHardeningParent = Some [allOptions_bindCheck]"
  "subOptions iptablesParent = Some [allOptions_iptablesAdvanced, allOptions_iptablesBogon, allOptions_iptablesPortKnocking]"
  "subOptions loggingParent = Some [allOptions_logging, allOptions_auditFileAccess, allOptions_auditCommands, allOptions_auditLogins]"
  "subOptions bootAndFilesystemParent = Some [allOptions_grubPassword, allOptions_filesystem, allOptions_disableFilesystems]"
  "subOptions complianceParent = Some [allOptions_pciDss]"
  by (simp_all add: parent_defs)

lemma catalog_rebootRequired:
  "rebootRequired allOptions_updates = None"
  "rebootRequired allOptions_firewall = None"
  "rebootRequired allOptions_ssh = None"
  "rebootRequired allOptions_fail2ban = None"
  "rebootRequired allOptions_passwordPolicy = None"
  "rebootRequired allOptions_userAccountManagement = None"
  "rebootRequired allOptions_sudoAudit = None"
  "rebootRequired allOptions_kernel = Some True"
  "rebootRequired allOptions_filesystem = Some True"
  "rebootRequired allOptions_logging = None"
  "rebootRequired allOptions_auditFileAccess = None"
  "rebootRequired allOptions_auditCommands = None"
  "rebootRequired allOptions_auditLogins = None"
  "rebootRequired allOptions_selinux = Some True"
  "rebootRequired allOptions_sshPort = None"
  "rebootRequired allOptions_umask = None"
  "rebootRequired allOptions_autoUpdates = None"
  "rebootRequired allOptions_disableFilesystems = Some True"
  "rebootRequired allOptions_bindCheck = None"
  "rebootRequired allOptions_grubPassword = Some True"
  "rebootRequired allOptions_iptablesAdvanced = None"
  "rebootRequired allOptions_iptablesBogon = None"
  "rebootRequired allOptions_iptablesPortKnocking = None"
  "rebootRequired allOptions_dnfSecurity = None"
  "rebootRequired allOptions_pciDss = None"
  by (simp_all add: allOptions_defs)

lemma catalog_parent_rebootRequired:
  "rebootRequired systemAndPackagesParent = None"
  "rebootRequired networkSecurityParent = None"
  "rebootRequired userManagementParent = None"
  "rebootRequired systemInternalsParent = None"
  "rebootRequired serviceHardeningParent = None"
  "rebootRequired iptablesParent = None"
  "rebootRequired loggingParent = None"
  "rebootRequired bootAndFilesystemParent = None"
  "rebootRequired complianceParent = None"
  by (simp_all add: parent_defs)

lemma catalog_prompt:
  "prompt allOptions_updates \<noteq> []"
  "prompt allOptions_firewall \<noteq> []"
  "prompt allOptions_ssh \<noteq> []"
  "prompt allOptions_fail2ban \<noteq> []"
  "prompt allOptions_passwordPolicy \<noteq> []"
  "prompt allOptions_userAccountManagement \<noteq> []"
  "prompt allOptions_sudoAudit \<noteq> []"
  "prompt allOptions_kernel \<noteq> []"
  "prompt allOptions_filesystem \<noteq> []"
  "prompt allOptions_logging \<noteq> []"
  "prompt allOptions_auditFileAccess \<noteq> []"
  "prompt allOptions_auditCommands \<noteq> []"
  "prompt allOptions_auditLogins \<noteq> []"
  "prompt allOptions_selinux \<noteq> []"
  "prompt allOptions_sshPort \<noteq> []"
  "prompt allOptions_umask \<noteq> []"
  "prompt allOptions_autoUpdates \<noteq> []"
  "prompt allOptions_disableFilesystems \<noteq> []"
  "prompt allOptions_bindCheck \<noteq> []"
  "prompt allOptions_grubPassword \<noteq> []"
  "prompt allOptions_iptablesAdvanced \<noteq> []"
  "prompt allOptions_iptablesBogon \<noteq> []"
  "prompt allOptions_iptablesPortKnocking \<noteq> []"
  "prompt allOptions_dnfSecurity \<noteq> []"
  "prompt allOptions_pciDss \<noteq> []"
  by (simp_all add: allOptions_defs)

lemma catalog_parent_prompt:
  "prompt systemAndPackagesParent = []"
  "prompt networkSecurityParent = []"
  "prompt userManagementParent = []"
  "prompt systemInternalsParent = []"
  "prompt serviceHardeningParent = []"
  "prompt iptablesParent = []"
  "prompt loggingParent = []"
  "prompt bootAndFilesystemParent = []"
  "prompt complianceParent = []"
  by (simp_all add: parent_defs)

lemmas catalog_sel =
  catalog_opt_id catalog_parent_opt_id catalog_subOptions catalog_parent_subOptions
  catalog_rebootRequired catalog_parent_rebootRequired catalog_prompt catalog_parent_prompt

lemma with_subOptions_sel:
  "opt_id (with_subOptions p subs) = opt_id p"
  "label (with_subOptions p subs) = label p"
  "description (with_subOptions p subs) = description p"
  "prompt (with_subOptions p subs) = prompt p"
  "subOptions (with_subOptions p subs) = Some subs"
  "rebootRequired (with_subOptions p subs) = rebootRequired p"
  by (cases p; simp)+

lemma getAllOptionsRecursively_Cons:
  "getAllOptionsRecursively (opt # rest) =
     (opt # (case subOptions opt of None \<Rightarrow> [] | Some subs \<Rightarrow> getAllOptionsRecursively subs))
     @ getAllOptionsRecursively rest"
  by (cases opt) simp

lemma buildLookups_Cons:
  "buildLookups (opt # rest) parentId (idm, pm) =
     buildLookups rest parentId
       (case subOptions opt of
          None \<Rightarrow> (js_set (opt_id opt) opt idm,
                    case parentId of None \<Rightarrow> pm
                    | Some pid \<Rightarrow> if pid \<noteq> [] then js_set (opt_id opt) pid pm else pm)
        | Some subs \<Rightarrow>
            buildLookups subs (Some (opt_id opt))
              (js_set (opt_id opt) opt idm,
               case parentId of None \<Rightarrow> pm
               | Some pid \<Rightarrow> if pid \<noteq> [] then js_set (opt_id opt) pid pm else pm))"
  by (cases opt) (simp add: Let_def split: option.split)

lemma lookups_eval:
  "lookups_of PARANOIA_LEVELS =
    ([(''systemAndPackages'', with_subOptions systemAndPackagesParent [allOptions_autoUpdates, allOptions_dnfSecurity]),
      (''updates'', allOptions_updates),
      (''networkSecurity'', with_subOptions networkSecurityParent [allOptions_fail2ban]),
      (''firewall'', allOptions_firewall),
      (''ssh'', allOptions_ssh),
      (''sshPort'', allOptions_sshPort),
      (''autoUpdates'', allOptions_autoUpdates),
      (''dnfSecurity'', allOptions_dnfSecurity),
      (''fail2ban'', allOptions_fail2ban),
      (''userManagement'', userManagementParent),
      (''passwordPolicy'', allOptions_passwordPolicy),
      (''userAccountManagement'', allOptions_userAccountManagement),
      (''sudoAudit'', allOptions_sudoAudit),
      (''umask'', allOptions_umask),
      (''systemInternals'', systemInternalsParent),
      (''kernel'', allOptions_kernel),
      (''selinux'', allOptions_selinux),
      (''serviceHardening'', serviceHardeningParent),
      (''bindCheck'', allOptions_bindCheck),
      (''iptables'', iptablesParent),
      (''iptablesAdvanced'', allOptions_iptablesAdvanced),
      (''iptablesBogon'', allOptions_iptablesBogon),
      (''iptablesPortKnocking'', allOptions_iptablesPortKnocking),
      (''bootAndFilesystem'', bootAndFilesystemParent),
      (''grubPassword'', allOptions_grubPassword),
      (''filesystem'', allOptions_filesystem),
      (''disableFilesystems'', allOptions_disableFilesystems),
      (''loggingParent'', loggingParent),
      (''logging'', allOptions_logging),
      (''auditFileAccess'', allOptions_auditFileAccess),
      (''auditCommands'', allOptions_auditCommands),
      (''auditLogins'', allOptions_auditLogins),
      (''compliance'', complianceParent),
      (''pciDss'', allOptions_pciDss)],
     [(''updates'', ''systemAndPackages''),
      (''firewall'', ''networkSecurity''),
      (''ssh'', ''networkSecurity''),
      (''sshPort'', ''networkSecurity''),
      (''autoUpdates'', ''systemAndPackages''),
      (''dnfSecurity'', ''systemAndPackages''),
      (''fail2ban'', ''networkSecurity''),
      (''passwordPolicy'', ''userManagement''),
      (''userAccountManagement'', ''userManagement''),
      (''sudoAudit'', ''userManagement''),
      (''umask'', ''userManagement''),
      (''kernel'', ''systemInternals''),
      (''selinux'', ''systemInternals''),
      (''bindCheck'', ''serviceHardening''),
      (''iptablesAdvanced'', ''iptables''),
      (''iptablesBogon'', ''iptables''),
      (''iptablesPortKnocking'', ''iptables''),
      (''grubPassword'', ''bootAndFilesystem''),
      (''filesystem'', ''bootAndFilesystem''),
      (''disableFilesystems'', ''bootAndFilesystem''),
      (''logging'', ''loggingParent''),
      (''auditFileAccess'', ''loggingParent''),
      (''auditCommands'', ''loggingParent''),
      (''auditLogins'', ''loggingParent''),
      (''pciDss'', ''compliance'')])"
  apply (simp only: lookups_of_def PARANOIA_LEVELS_def foldl.simps ParanoiaLevel.simps)
  apply (simp add: buildLookups_Cons catalog_sel with_subOptions_sel del: buildLookups.simps(2))
  done

lemma idToOptionMap_eval:
  "idToOptionMap =
     [(''systemAndPackages'', with_subOptions systemAndPackagesParent [allOptions_autoUpdates, allOptions_dnfSecurity]),
      (''updates'', allOptions_updates),
      (''networkSecurity'', with_subOptions networkSecurityParent [allOptions_fail2ban]),
      (''firewall'', allOptions_firewall),
      (''ssh'', allOptions_ssh),
      (''sshPort'', allOptions_sshPort),
      (''autoUpdates'', allOptions_autoUpdates),
      (''dnfSecurity'', allOptions_dnfSecurity),
      (''fail2ban'', allOptions_fail2ban),
      (''userManagement'', userManagementParent),
      (''passwordPolicy'', allOptions_passwordPolicy),
      (''userAccountManagement'', allOptions_userAccountManagement),
      (''sudoAudit'', allOptions_sudoAudit),
      (''umask'', allOptions_umask),
      (''systemInternals'', systemInternalsParent),
      (''kernel'', allOptions_kernel),
      (''selinux'', allOptions_selinux),
      (''serviceHardening'', serviceHardeningParent),
      (''bindCheck'', allOptions_bindCheck),
      (''iptables'', iptablesParent),
      (''iptablesAdvanced'', allOptions_iptablesAdvanced),
      (''iptablesBogon'', allOptions_iptablesBogon),
      (''iptablesPortKnocking'', allOptions_iptablesPortKnocking),
      (''bootAndFilesystem'', bootAndFilesystemParent),
      (''grubPassword'', allOptions_grubPassword),
      (''filesystem'', allOptions_filesystem),
      (''disableFilesystems'', allOptions_disableFilesystems),
      (''loggingParent'', loggingParent),
      (''logging'', allOptions_logging),
      (''auditFileAccess'', allOptions_auditFileAccess),
      (''auditCommands'', allOptions_auditCommands),
      (''auditLogins'', allOptions_auditLogins),
      (''compliance'', complianceParent),
      (''pciDss'', allOptions_pciDss)]"
  by (simp add: idToOptionMap_def lookups_eval)

lemma parentMap_eval:
  "parentMap =
     [(''updates'', ''systemAndPackages''),
      (''firewall'', ''networkSecurity''),
      (''ssh'', ''networkSecurity''),
      (''sshPort'', ''networkSecurity''),
      (''autoUpdates'', ''systemAndPackages''),
      (''dnfSecurity'', ''systemAndPackages''),
      (''fail2ban'', ''networkSecurity''),
      (''passwordPolicy'', ''userManagement''),
      (''userAccountManagement'', ''userManagement''),
      (''sudoAudit'', ''userManagement''),
      (''umask'', ''userManagement''),
      (''kernel'', ''systemInternals''),
      (''selinux'', ''systemInternals''),
      (''bindCheck'', ''serviceHardening''),
      (''iptablesAdvanced'', ''iptables''),
      (''iptablesBogon'', ''iptables''),
      (''iptablesPortKnocking'', ''iptables''),
      (''grubPassword'', ''bootAndFilesystem''),
      (''filesystem'', ''bootAndFilesystem''),
      (''disableFilesystems'', ''bootAndFilesystem''),
      (''logging'', ''loggingParent''),
      (''auditFileAccess'', ''loggingParent''),
      (''auditCommands'', ''loggingParent''),
      (''auditLogins'', ''loggingParent''),
      (''pciDss'', ''compliance'')]"
  by (simp add: parentMap_def lookups_eval)

lemma catalog_flat_eval:
  "allCatalogOptions PARANOIA_LEVELS =
     [with_subOptions systemAndPackagesParent [allOptions_updates],
      allOptions_updates,
      with_subOptions networkSecurityParent [allOptions_firewall, allOptions_ssh, allOptions_sshPort],
      allOptions_firewall,
      allOptions_ssh,
      allOptions_sshPort,
      with_subOptions systemAndPackagesParent [allOptions_autoUpdates, allOptions_dnfSecurity],
      allOptions_autoUpdates,
      allOptions_dnfSecurity,
      with_subOptions networkSecurityParent [allOptions_fail2ban],
      allOptions_fail2ban,
      userManagementParent,
      allOptions_passwordPolicy,
      allOptions_userAccountManagement,
      allOptions_sudoAudit,
      allOptions_umask,
      systemInternalsParent,
      allOptions_kernel,
      allOptions_selinux,
      serviceHardeningParent,
      allOptions_bindCheck,
      iptablesParent,
      allOptions_iptablesAdvanced,
      allOptions_iptablesBogon,
      allOptions_iptablesPortKnocking,
      bootAndFilesystemParent,
      allOptions_grubPassword,
      allOptions_filesystem,
      allOptions_disableFilesystems,
      loggingParent,
      allOptions_logging,
      allOptions_auditFileAccess,
      allOptions_auditCommands,
      allOptions_auditLogins,
      complianceParent,
      allOptions_pciDss]"
  apply (simp only: allCatalogOptions_def PARANOIA_LEVELS_def list.map concat.simps comp_def ParanoiaLevel.simps)
  apply (simp add: getAllOptionsRecursively_Cons catalog_sel with_subOptions_sel
      del: getAllOptionsRecursively.simps(2))
  done

lemma map_of_js_set: "map_of (js_set k v m) = (map_of m)(k \<mapsto> v)"
  by (induction m) (auto simp add: fun_eq_iff)

lemma truthy_js_set: "truthy (js_set k v sel) i = (if i = k then v else truthy sel i)"
  by (simp add: truthy_def map_of_js_set)

lemma set_js_set: "set (js_set k v m) \<subseteq> insert (k, v) (set m)"
  by (induction m) (auto split: if_splits)

lemma keys_js_set: "fst ` set (js_set k v m) = insert k (fst ` set m)"
  by (induction m) (auto simp add: rev_image_eqI split: if_splits)

lemma initial_values_False:
  "snd ` set acc \<subseteq> {False} \<Longrightarrow>
   snd ` set (foldl (\<lambda>acc key. js_set key False acc) acc keys) \<subseteq> {False}"
proof (induction keys arbitrary: acc)
  case Nil
  then show ?case by simp
next
  case (Cons k keys)
  have "snd ` set (js_set k False acc) \<subseteq> {False}"
    using Cons.prems set_js_set [of k False acc] by force
  from Cons.IH [OF this] show ?case by simp
qed

lemma initialSelections_of_none:
  "\<not> list_ex (\<lambda>v. v) (map snd (initialSelections_of idm))"
  using initial_values_False [of "[]" "map fst idm"]
  by (auto simp add: initialSelections_of_def list_ex_iff)

lemma initialSelections_of_falsy: "\<not> truthy (initialSelections_of idm) i"
  using initialSelections_of_none [of idm] truthy_list_ex [of "initialSelections_of idm" i]
  by blast


lemma initialSelections_falsy [simp]: "truthy initialSelections i = False"
  by (simp add: initialSelections_def initialSelections_of_falsy)

lemma initialSelections_none [simp]: "list_ex (\<lambda>v. v) (map snd initialSelections) = False"
  by (simp add: initialSelections_def initialSelections_of_none)

lemma idToOptionMap_lookup:
  "map_of idToOptionMap ''updates'' = Some allOptions_updates"
  "map_of idToOptionMap ''systemAndPackages'' =
     Some (with_subOptions systemAndPackagesParent [allOptions_autoUpdates, allOptions_dnfSecurity])"
  "map_of idToOptionMap ''unknownOption'' = None"
  by (simp_all add: idToOptionMap_eval)

lemma parentMap_lookup:
  "map_of parentMap ''updates'' = Some ''systemAndPackages''"
  "map_of parentMap ''systemAndPackages'' = None"
  "map_of parentMap ''unknownOption'' = None"
  by (simp_all add: parentMap_eval)

lemma with_subOptions_inject:
  "with_subOptions p subs = with_subOptions p subs' \<longleftrightarrow> subs = subs'"
  by (cases p) simp

section \<open>Option ids\<close>

text \<open>
  Claim C4 says that no two distinct options of the catalog share an id. The catalog holds
  two options with the id \<^verbatim>\<open>systemAndPackages\<close>, the copy of the container at level 1
  and the copy at level 2, and they differ in their children; so the ids of the flattened
  catalog are not distinct. (The same holds for \<^verbatim>\<open>networkSecurity\<close>.)
\<close>

theorem catalog_ids_not_unique:
  "with_subOptions systemAndPackagesParent [allOptions_updates]
     \<in> set (allCatalogOptions PARANOIA_LEVELS)
   \<and> with_subOptions systemAndPackagesParent [allOptions_autoUpdates, allOptions_dnfSecurity]
     \<in> set (allCatalogOptions PARANOIA_LEVELS)
   \<and> with_subOptions systemAndPackagesParent [allOptions_updates]
     \<noteq> with_subOptions systemAndPackagesParent [allOptions_autoUpdates, allOptions_dnfSecurity]
   \<and> opt_id (with_subOptions systemAndPackagesParent [allOptions_updates])
     = opt_id (with_subOptions systemAndPackagesParent [allOptions_autoUpdates, allOptions_dnfSecurity])
   \<and> \<not> distinct (map opt_id (allCatalogOptions PARANOIA_LEVELS))"
proof -
  let ?a = "with_subOptions systemAndPackagesParent [allOptions_updates]"
  let ?b = "with_subOptions systemAndPackagesParent [allOptions_autoUpdates, allOptions_dnfSecurity]"
  have a: "?a \<in> set (allCatalogOptions PARANOIA_LEVELS)"
    by (simp add: catalog_flat_eval)
  have b: "?b \<in> set (allCatalogOptions PARANOIA_LEVELS)"
    by (simp add: catalog_flat_eval)
  have ne: "?a \<noteq> ?b"
    by (simp add: with_subOptions_inject)
  have same: "opt_id ?a = opt_id ?b"
    by (simp add: with_subOptions_sel)
  have "\<not> inj_on opt_id (set (allCatalogOptions PARANOIA_LEVELS))"
    using a b ne same by (auto simp add: inj_on_def)
  then have "\<not> distinct (map opt_id (allCatalogOptions PARANOIA_LEVELS))"
    by (simp add: distinct_map)
  with a b ne same show ?thesis by blast
qed

section \<open>Toggles on the catalog\<close>

text \<open>
  Claim C3 says that after any sequence of toggles from the all-deselected state every
  option with children is selected if and only if all its direct children are. Ticking
  \<^verbatim>\<open>updates\<close> first breaks it: the walk up looks the parent \<^verbatim>\<open>systemAndPackages\<close> up
  in \<^verbatim>\<open>idToOptionMap\<close>, finds the copy of level 2 with its children \<^verbatim>\<open>autoUpdates\<close> and
  \<^verbatim>\<open>dnfSecurity\<close>, and leaves the id deselected, while the only child of the copy at
  level 1, \<^verbatim>\<open>updates\<close>, is selected.
\<close>

theorem toggle_breaks_tri_state:
  "toggles idToOptionMap parentMap [''updates''] initialSelections =
     Some (js_set ''systemAndPackages'' False (js_set ''updates'' True initialSelections))
   \<and> \<not> tri_state_closed (allCatalogOptions PARANOIA_LEVELS)
         (js_set ''systemAndPackages'' False (js_set ''updates'' True initialSelections))"
proof
  show "toggles idToOptionMap parentMap [''updates''] initialSelections =
     Some (js_set ''systemAndPackages'' False (js_set ''updates'' True initialSelections))"
    by (simp add: handleOptionChange_def Let_def idToOptionMap_lookup parentMap_lookup
        catalog_sel with_subOptions_sel truthy_js_set climb.simps)
  show "\<not> tri_state_closed (allCatalogOptions PARANOIA_LEVELS)
         (js_set ''systemAndPackages'' False (js_set ''updates'' True initialSelections))"
    by (simp add: tri_state_closed_def catalog_flat_eval catalog_sel with_subOptions_sel
        truthy_js_set)
qed

section \<open>Toggling an id that the catalog does not have\<close>

lemma buildLookups_keys:
  "fst ` set pm \<subseteq> fst ` set idm \<Longrightarrow> buildLookups os parentId (idm, pm) = (idm', pm') \<Longrightarrow>
   fst ` set pm' \<subseteq> fst ` set idm'"
proof (induction os parentId "(idm, pm)" arbitrary: idm pm idm' pm' rule: buildLookups.induct)
  case (1 parentId)
  then show ?case by simp
next
  case (2 i l d p s r rest parentId idm pm)
  let ?idm1 = "js_set i (HardeningOption i l d p s r) idm"
  let ?pm1 = "case parentId of None \<Rightarrow> pm
              | Some pid \<Rightarrow> if pid \<noteq> [] then js_set i pid pm else pm"
  have keys1: "fst ` set ?pm1 \<subseteq> fst ` set ?idm1"
    using "2.prems"(1) by (auto simp add: keys_js_set split: option.splits)
  obtain idm2 pm2 where maps2:
    "(case s of None \<Rightarrow> (?idm1, ?pm1)
      | Some subs \<Rightarrow> buildLookups subs (Some i) (?idm1, ?pm1)) = (idm2, pm2)"
    by (cases "case s of None \<Rightarrow> (?idm1, ?pm1)
               | Some subs \<Rightarrow> buildLookups subs (Some i) (?idm1, ?pm1)") auto
  have keys2: "fst ` set pm2 \<subseteq> fst ` set idm2"
  proof (cases s)
    case None
    with maps2 keys1 show ?thesis by auto
  next
    case (Some subs)
    with maps2 have "buildLookups subs (Some i) (?idm1, ?pm1) = (idm2, pm2)" by simp
    from "2.hyps"(1) [OF refl refl Some keys1 this] show ?thesis .
  qed
  have rest: "buildLookups rest parentId (idm2, pm2) = (idm', pm')"
    using "2.prems"(2) maps2 by (simp add: Let_def)
  show ?case
    using "2.hyps"(2) [OF refl refl maps2 [symmetric] keys2 rest] .
qed

lemma lookups_of_keys:
  assumes "lookups_of levels = (idm, pm)"
  shows "fst ` set pm \<subseteq> fst ` set idm"
proof -
  have "fst ` set (snd acc) \<subseteq> fst ` set (fst acc) \<Longrightarrow>
        fst ` set (snd (foldl (\<lambda>maps lv. buildLookups (options lv) None maps) acc levels))
          \<subseteq> fst ` set (fst (foldl (\<lambda>maps lv. buildLookups (options lv) None maps) acc levels))"
    for acc
  proof (induction levels arbitrary: acc)
    case Nil
    then show ?case by simp
  next
    case (Cons lv levels)
    have "fst ` set (snd (buildLookups (options lv) None acc))
            \<subseteq> fst ` set (fst (buildLookups (options lv) None acc))"
      using Cons.prems buildLookups_keys [of "snd acc" "fst acc" "options lv" None]
      by (cases "buildLookups (options lv) None acc") (cases acc, auto)
    from Cons.IH [OF this] show ?case by simp
  qed
  from this [of "([], [])"] assms show ?thesis
    by (simp add: lookups_of_def)
qed

lemma climb_root: "climb idm pm isChecked None sel = Some sel"
  by (subst climb.simps) simp

text \<open>
  Claim C8, as amended. For an id that is not a key of the index built from the catalog,
  the toggle returns and writes the entry of that id alone: it becomes the negation of
  what it read as before, so an absent entry becomes \<^verbatim>\<open>true\<close>. The entry of every id of
  the index reads as before. Entries are read as own keys of the selection state, so for
  the source this is the behaviour at every id that is not the name of a property
  inherited from \<^verbatim>\<open>Object.prototype\<close>.
\<close>

theorem unknown_id_toggle:
  assumes "lookups_of levels = (idm, pm)" and "map_of idm i = None"
  shows "handleOptionChange idm pm i sel = Some (js_set i (\<not> truthy sel i) sel)
         \<and> list_all (\<lambda>j. map_of (js_set i (\<not> truthy sel i) sel) j = map_of sel j) (map fst idm)"
proof
  have "i \<notin> fst ` set idm"
    using assms(2) by (simp add: map_of_eq_None_iff)
  then have "i \<notin> fst ` set pm"
    using lookups_of_keys [OF assms(1)] by blast
  then have "map_of pm i = None"
    by (simp add: map_of_eq_None_iff)
  then show "handleOptionChange idm pm i sel = Some (js_set i (\<not> truthy sel i) sel)"
    using assms(2) by (simp add: handleOptionChange_def Let_def climb_root)
  show "list_all (\<lambda>j. map_of (js_set i (\<not> truthy sel i) sel) j = map_of sel j) (map fst idm)"
    using \<open>i \<notin> fst ` set idm\<close> by (auto simp add: list_all_iff map_of_js_set)
qed

text \<open>The amended claim on the catalog, after \<^verbatim>\<open>ssh\<close> was ticked.\<close>

theorem unknown_id_toggle_witness:
  "lookups_of PARANOIA_LEVELS = (idToOptionMap, parentMap)
   \<and> map_of idToOptionMap ''unknownOption'' = None
   \<and> handleOptionChange idToOptionMap parentMap ''unknownOption''
        (js_set ''ssh'' True initialSelections) =
      Some (js_set ''unknownOption'' True (js_set ''ssh'' True initialSelections))"
proof -
  have l: "lookups_of PARANOIA_LEVELS = (idToOptionMap, parentMap)"
    by (simp add: idToOptionMap_def parentMap_def)
  have n: "map_of idToOptionMap ''unknownOption'' = None"
    by (rule idToOptionMap_lookup)
  from unknown_id_toggle [OF l n, of "js_set ''ssh'' True initialSelections"] l n
  show ?thesis by (simp add: truthy_js_set)
qed

text \<open>
  Claim C8 as stated fails: toggling an id that the catalog does not have changes the
  selection state, and the change shows, since the generation trigger, which is off in the
  initial state, is on afterwards. No error is reported.
\<close>

theorem unknown_id_toggle_changes_state:
  "handleOptionChange idToOptionMap parentMap ''unknownOption'' initialSelections =
     Some (js_set ''unknownOption'' True initialSelections)
   \<and> js_set ''unknownOption'' True initialSelections \<noteq> initialSelections
   \<and> \<not> isAnyOptionSelected initialState
   \<and> isAnyOptionSelected
       (initialState\<lparr>selectedOptions := js_set ''unknownOption'' True initialSelections\<rparr>)"
proof -
  have 1: "handleOptionChange idToOptionMap parentMap ''unknownOption'' initialSelections =
     Some (js_set ''unknownOption'' True initialSelections)"
    by (simp add: handleOptionChange_def Let_def idToOptionMap_lookup parentMap_lookup climb_root)
  have t: "truthy (js_set ''unknownOption'' True initialSelections) ''unknownOption''"
    by (simp add: truthy_js_set)
  then have 2: "js_set ''unknownOption'' True initialSelections \<noteq> initialSelections"
    using initialSelections_falsy [of "''unknownOption''"] by auto
  have 3: "\<not> isAnyOptionSelected initialState"
    by (simp add: isAnyOptionSelected_def initialState_def js_trim_def)
  have 4: "isAnyOptionSelected
       (initialState\<lparr>selectedOptions := js_set ''unknownOption'' True initialSelections\<rparr>)"
    using truthy_list_ex [OF t] by (simp add: isAnyOptionSelected_def)
  from 1 2 3 4 show ?thesis by blast
qed

section \<open>Toggles on a well-formed catalog\<close>

text \<open>
  On a catalog whose ids are distinct and not empty, the two Maps are the id and parent
  functions of the forest, the walk up ends, and every toggle keeps the tri-state rule.
  The catalog that is shipped is not of that kind (see the theorem on claim C4).
\<close>

lemma set_each_append: "set_each m (xs @ ys) = set_each (set_each m xs) ys"
  by (simp add: set_each_def)

lemma set_each_simps [simp]:
  "set_each m [] = m"
  "set_each m (kv # kvs) = set_each (js_set (fst kv) (snd kv) m) kvs"
  by (simp_all add: set_each_def)

lemma map_of_set_each: "map_of (set_each m kvs) = map_of m ++ map_of (rev kvs)"
proof (induction kvs arbitrary: m)
  case Nil
  then show ?case by simp
next
  case (Cons kv kvs)
  show ?case
    by (cases kv) (simp add: Cons.IH map_of_js_set map_of_append fun_eq_iff map_add_def
        split: option.splits)
qed

lemma getAll_append:
  "getAllOptionsRecursively (xs @ ys) = getAllOptionsRecursively xs @ getAllOptionsRecursively ys"
  by (induction xs rule: getAllOptionsRecursively.induct) simp_all

lemma parent_pairs_append:
  "parent_pairs (xs @ ys) pid = parent_pairs xs pid @ parent_pairs ys pid"
  by (induction xs pid rule: parent_pairs.induct) simp_all

lemma buildLookups_set_each:
  "buildLookups os parentId (idm, pm) =
     (set_each idm (id_pairs os), set_each pm (parent_pairs os parentId))"
proof (induction os parentId "(idm, pm)" arbitrary: idm pm rule: buildLookups.induct)
  case (1 parentId)
  then show ?case by (simp add: id_pairs_def)
next
  case (2 i l d p s r rest parentId idm pm)
  let ?opt = "HardeningOption i l d p s r"
  let ?idm1 = "js_set i ?opt idm"
  let ?pm1 = "case parentId of None \<Rightarrow> pm
              | Some pid \<Rightarrow> if pid \<noteq> [] then js_set i pid pm else pm"
  let ?own = "case parentId of None \<Rightarrow> []
              | Some pid \<Rightarrow> if pid \<noteq> [] then [(i, pid)] else []"
  have pm1: "?pm1 = set_each pm ?own"
    by (simp split: option.splits)
  show ?case
  proof (cases s)
    case None
    have "buildLookups (?opt # rest) parentId (idm, pm) = buildLookups rest parentId (?idm1, ?pm1)"
      using None by (simp add: Let_def)
    also have "\<dots> = (set_each ?idm1 (id_pairs rest), set_each ?pm1 (parent_pairs rest parentId))"
    proof -
      have "(?idm1, ?pm1) = (case s of None \<Rightarrow> (?idm1, ?pm1)
                             | Some subs \<Rightarrow> buildLookups subs (Some i) (?idm1, ?pm1))"
        using None by simp
      from "2.hyps"(2) [OF refl refl this] show ?thesis .
    qed
    finally show ?thesis
      using None by (simp add: id_pairs_def pm1 set_each_def)
  next
    case (Some subs)
    let ?idm2 = "set_each ?idm1 (id_pairs subs)"
    let ?pm2 = "set_each ?pm1 (parent_pairs subs (Some i))"
    have subs: "buildLookups subs (Some i) (?idm1, ?pm1) = (?idm2, ?pm2)"
      using "2.hyps"(1) [OF refl refl Some] by simp
    have "buildLookups (?opt # rest) parentId (idm, pm) = buildLookups rest parentId (?idm2, ?pm2)"
      using Some subs by (simp add: Let_def)
    also have "\<dots> = (set_each ?idm2 (id_pairs rest), set_each ?pm2 (parent_pairs rest parentId))"
    proof -
      have "(?idm2, ?pm2) = (case s of None \<Rightarrow> (?idm1, ?pm1)
                             | Some subs \<Rightarrow> buildLookups subs (Some i) (?idm1, ?pm1))"
        using Some subs by simp
      from "2.hyps"(2) [OF refl refl this] show ?thesis .
    qed
    finally show ?thesis
      using Some by (simp add: id_pairs_def pm1 set_each_def)
  qed
qed


lemma roots_in_flat: "set os \<subseteq> set (getAllOptionsRecursively os)"
  by (induction os rule: getAllOptionsRecursively.induct) auto

lemma children_in_flat:
  "opt \<in> set (getAllOptionsRecursively os) \<Longrightarrow>
   set (getAllOptionsRecursively (children opt)) \<subseteq> set (getAllOptionsRecursively os)"
proof (induction os rule: getAllOptionsRecursively.induct)
  case 1
  then show ?case by simp
next
  case (2 i l d p s r rest)
  show ?case
  proof (cases s)
    case None
    with 2 show ?thesis by (auto simp add: children_def)
  next
    case (Some subs)
    with 2 show ?thesis by (auto simp add: children_def)
  qed
qed

lemma flat_root_or_child:
  "x \<in> set (getAllOptionsRecursively os) \<Longrightarrow>
   x \<in> set os \<or> (\<exists>opt \<in> set (getAllOptionsRecursively os). x \<in> set (children opt))"
proof (induction os rule: getAllOptionsRecursively.induct)
  case 1
  then show ?case by simp
next
  case (2 i l d p s r rest)
  show ?case
  proof (cases s)
    case None
    with 2 show ?thesis by auto
  next
    case (Some subs)
    let ?opt = "HardeningOption i l d p s r"
    from "2.prems" Some consider "x = ?opt" | "x \<in> set (getAllOptionsRecursively subs)"
      | "x \<in> set (getAllOptionsRecursively rest)" by auto
    then show ?thesis
    proof cases
      case 1
      then show ?thesis by simp
    next
      case 2
      from "2.IH"(1) [OF Some 2]
      have "x \<in> set subs \<or> (\<exists>opt \<in> set (getAllOptionsRecursively subs). x \<in> set (children opt))" .
      then show ?thesis
      proof
        assume "x \<in> set subs"
        then have "x \<in> set (children ?opt)" using Some by (simp add: children_def)
        then show ?thesis by auto
      next
        assume "\<exists>opt \<in> set (getAllOptionsRecursively subs). x \<in> set (children opt)"
        then show ?thesis using Some by auto
      qed
    next
      case 3
      from "2.IH"(2) [OF 3] show ?thesis by auto
    qed
  qed
qed

lemma size_in_flat:
  "x \<in> set (getAllOptionsRecursively os) \<Longrightarrow> size x \<le> size_list size os"
proof (induction os rule: getAllOptionsRecursively.induct)
  case 1
  then show ?case by simp
next
  case (2 i l d p s r rest)
  show ?case
  proof (cases s)
    case None
    with 2 show ?thesis by auto
  next
    case (Some subs)
    with 2 show ?thesis by fastforce
  qed
qed

lemma size_descendant:
  "x \<in> set (getAllOptionsRecursively (children opt)) \<Longrightarrow> size x < size opt"
proof -
  assume x: "x \<in> set (getAllOptionsRecursively (children opt))"
  show ?thesis
  proof (cases opt)
    case (HardeningOption i l d p s r)
    show ?thesis
    proof (cases s)
      case None
      with x HardeningOption show ?thesis by (simp add: children_def)
    next
      case (Some subs)
      with x HardeningOption have "size x \<le> size_list size subs"
        by (simp add: children_def size_in_flat)
      with HardeningOption Some show ?thesis by simp
    qed
  qed
qed

lemma size_child: "x \<in> set (children opt) \<Longrightarrow> size x < size opt"
  using roots_in_flat [of "children opt"] size_descendant by blast

lemma parent_pairs_set:
  "(c, q) \<in> set (parent_pairs os parentId) \<longleftrightarrow>
     (parentId = Some q \<and> q \<noteq> [] \<and> c \<in> opt_id ` set os)
     \<or> (\<exists>opt \<in> set (getAllOptionsRecursively os).
           q = opt_id opt \<and> q \<noteq> [] \<and> c \<in> opt_id ` set (children opt))"
proof (induction os parentId rule: parent_pairs.induct)
  case (1 parentId)
  then show ?case by simp
next
  case (2 i l d p s r rest parentId)
  let ?opt = "HardeningOption i l d p s r"
  define own where
    "own = (case parentId of None \<Rightarrow> [] | Some pid \<Rightarrow> if pid \<noteq> [] then [(i, pid)] else [])"
  define below where
    "below = (case s of None \<Rightarrow> [] | Some subs \<Rightarrow> parent_pairs subs (Some i))"
  have unfold: "parent_pairs (?opt # rest) parentId = own @ below @ parent_pairs rest parentId"
    by (simp add: own_def below_def)
  have flat: "set (getAllOptionsRecursively (?opt # rest)) =
                insert ?opt (set (getAllOptionsRecursively (children ?opt))
                             \<union> set (getAllOptionsRecursively rest))"
    by (cases s) (simp_all add: children_def)
  have own: "(c, q) \<in> set own \<longleftrightarrow> parentId = Some q \<and> q \<noteq> [] \<and> c = i"
    by (auto simp add: own_def split: option.splits)
  have below: "(c, q) \<in> set below \<longleftrightarrow>
                 (q = i \<and> q \<noteq> [] \<and> c \<in> opt_id ` set (children ?opt))
                 \<or> (\<exists>opt \<in> set (getAllOptionsRecursively (children ?opt)).
                       q = opt_id opt \<and> q \<noteq> [] \<and> c \<in> opt_id ` set (children opt))"
  proof (cases s)
    case None
    then show ?thesis by (simp add: below_def children_def)
  next
    case (Some subs)
    from "2.IH"(1) [OF Some] Some show ?thesis
      by (simp add: below_def children_def; blast)
  qed
  have rest: "(c, q) \<in> set (parent_pairs rest parentId) \<longleftrightarrow>
     (parentId = Some q \<and> q \<noteq> [] \<and> c \<in> opt_id ` set rest)
     \<or> (\<exists>opt \<in> set (getAllOptionsRecursively rest).
           q = opt_id opt \<and> q \<noteq> [] \<and> c \<in> opt_id ` set (children opt))"
    by (rule "2.IH"(2))
  have "(c, q) \<in> set (parent_pairs (?opt # rest) parentId) \<longleftrightarrow>
          (c, q) \<in> set own \<or> (c, q) \<in> set below \<or> (c, q) \<in> set (parent_pairs rest parentId)"
    unfolding unfold by auto
  also have "\<dots> \<longleftrightarrow>
     (parentId = Some q \<and> q \<noteq> [] \<and> c \<in> opt_id ` set (?opt # rest))
     \<or> (\<exists>opt \<in> set (getAllOptionsRecursively (?opt # rest)).
           q = opt_id opt \<and> q \<noteq> [] \<and> c \<in> opt_id ` set (children opt))"
    unfolding own below rest flat by (simp add: bex_Un; blast)
  finally show ?case .
qed

lemma parent_pairs_keys:
  "fst ` set (parent_pairs os parentId) \<subseteq> opt_id ` set (getAllOptionsRecursively os)"
proof
  fix c
  assume "c \<in> fst ` set (parent_pairs os parentId)"
  then obtain q where "(c, q) \<in> set (parent_pairs os parentId)" by auto
  then consider "c \<in> opt_id ` set os"
    | opt where "opt \<in> set (getAllOptionsRecursively os)" "c \<in> opt_id ` set (children opt)"
    unfolding parent_pairs_set by blast
  then show "c \<in> opt_id ` set (getAllOptionsRecursively os)"
  proof cases
    case 1
    then show ?thesis using roots_in_flat [of os] by blast
  next
    case 2
    then show ?thesis
      using roots_in_flat [of "children opt"] children_in_flat [of opt os] by blast
  qed
qed

lemma parent_pairs_distinct:
  "distinct (map opt_id (getAllOptionsRecursively os)) \<Longrightarrow>
   distinct (map fst (parent_pairs os parentId))"
proof (induction os parentId rule: parent_pairs.induct)
  case (1 parentId)
  then show ?case by simp
next
  case (2 i l d p s r rest parentId)
  define own where
    "own = (case parentId of None \<Rightarrow> [] | Some pid \<Rightarrow> if pid \<noteq> [] then [(i, pid)] else [])"
  define below where
    "below = (case s of None \<Rightarrow> [] | Some subs \<Rightarrow> parent_pairs subs (Some i))"
  define flat_below where
    "flat_below = (case s of None \<Rightarrow> [] | Some subs \<Rightarrow> getAllOptionsRecursively subs)"
  have unfold: "parent_pairs (HardeningOption i l d p s r # rest) parentId =
                  own @ below @ parent_pairs rest parentId"
    by (simp add: own_def below_def)
  have prems: "i \<notin> opt_id ` set flat_below" "i \<notin> opt_id ` set (getAllOptionsRecursively rest)"
    "opt_id ` set flat_below \<inter> opt_id ` set (getAllOptionsRecursively rest) = {}"
    "distinct (map opt_id flat_below)" "distinct (map opt_id (getAllOptionsRecursively rest))"
    using "2.prems" by (auto simp add: flat_below_def split: option.splits)
  have own: "fst ` set own \<subseteq> {i}" "distinct (map fst own)"
    by (auto simp add: own_def split: option.splits)
  have below: "fst ` set below \<subseteq> opt_id ` set flat_below" "distinct (map fst below)"
  proof -
    show "fst ` set below \<subseteq> opt_id ` set flat_below"
    proof (cases s)
      case None
      then show ?thesis by (simp add: below_def)
    next
      case (Some subs)
      with parent_pairs_keys [of subs "Some i"] show ?thesis
        by (simp add: below_def flat_below_def)
    qed
    show "distinct (map fst below)"
    proof (cases s)
      case None
      then show ?thesis by (simp add: below_def)
    next
      case (Some subs)
      with prems(4) have "distinct (map opt_id (getAllOptionsRecursively subs))"
        by (simp add: flat_below_def)
      from "2.IH"(1) [OF Some this] Some show ?thesis by (simp add: below_def)
    qed
  qed
  have rest: "fst ` set (parent_pairs rest parentId) \<subseteq> opt_id ` set (getAllOptionsRecursively rest)"
    "distinct (map fst (parent_pairs rest parentId))"
    using parent_pairs_keys [of rest parentId] "2.IH"(2) [OF prems(5)] by simp_all
  have "fst ` set own \<inter> fst ` set below = {}"
    using own(1) below(1) prems(1) by blast
  moreover have "fst ` set own \<inter> fst ` set (parent_pairs rest parentId) = {}"
    using own(1) rest(1) prems(2) by blast
  moreover have "fst ` set below \<inter> fst ` set (parent_pairs rest parentId) = {}"
    using below(1) rest(1) prems(3) by blast
  ultimately have "fst ` set own \<inter> (fst ` set below \<union> fst ` set (parent_pairs rest parentId)) = {}"
    "fst ` set below \<inter> fst ` set (parent_pairs rest parentId) = {}"
    by blast+
  then show ?case
    unfolding unfold using own(2) below(2) rest(2) by simp
qed

lemma tri_state_closed_iff:
  "tri_state_closed opts sel \<longleftrightarrow> (\<forall>opt \<in> set opts. closed_at sel opt)"
  by (auto simp add: tri_state_closed_def closed_at_def children_def list_all_iff
      split: option.splits)

lemma closed_at_cong:
  assumes "truthy sel' (opt_id opt) = truthy sel (opt_id opt)"
      and "\<And>c. c \<in> set (children opt) \<Longrightarrow> truthy sel' (opt_id c) = truthy sel (opt_id c)"
  shows "closed_at sel' opt = closed_at sel opt"
  using assms by (simp add: closed_at_def list_all_iff)

lemma same_id_same_option:
  assumes "wf_catalog roots"
      and "a \<in> set (getAllOptionsRecursively roots)" "b \<in> set (getAllOptionsRecursively roots)"
      and "opt_id a = opt_id b"
  shows "a = b"
proof -
  have "inj_on opt_id (set (getAllOptionsRecursively roots))"
    using assms(1) by (simp add: wf_catalog_def distinct_map)
  with assms(2-4) show ?thesis by (auto dest: inj_onD)
qed

lemma child_in_flat:
  assumes "opt \<in> set (getAllOptionsRecursively roots)" "c \<in> set (children opt)"
  shows "c \<in> set (getAllOptionsRecursively roots)"
  using assms roots_in_flat [of "children opt"] children_in_flat [of opt roots] by blast

lemma idm_lookup:
  assumes wf: "wf_catalog roots" and build: "buildLookups roots None ([], []) = (idm, pm)"
  shows "map_of idm i = Some opt \<longleftrightarrow> opt \<in> set (getAllOptionsRecursively roots) \<and> opt_id opt = i"
proof -
  have idm: "idm = set_each [] (id_pairs roots)"
    using build by (simp add: buildLookups_set_each)
  have d: "distinct (map fst (rev (id_pairs roots)))"
    using wf by (simp add: wf_catalog_def id_pairs_def rev_map [symmetric] comp_def)
  have "map_of idm i = map_of (rev (id_pairs roots)) i"
    by (simp add: idm map_of_set_each)
  also have "\<dots> = Some opt \<longleftrightarrow> (i, opt) \<in> set (rev (id_pairs roots))"
    using d by (rule map_of_eq_Some_iff)
  also have "\<dots> \<longleftrightarrow> opt \<in> set (getAllOptionsRecursively roots) \<and> opt_id opt = i"
    by (auto simp add: id_pairs_def)
  finally show ?thesis .
qed

lemma pm_lookup:
  assumes wf: "wf_catalog roots" and build: "buildLookups roots None ([], []) = (idm, pm)"
  shows "map_of pm c = Some q \<longleftrightarrow>
           (\<exists>opt \<in> set (getAllOptionsRecursively roots).
              q = opt_id opt \<and> c \<in> opt_id ` set (children opt))"
proof -
  have pm: "pm = set_each [] (parent_pairs roots None)"
    using build by (simp add: buildLookups_set_each)
  have d: "distinct (map fst (rev (parent_pairs roots None)))"
    using wf parent_pairs_distinct [of roots None]
    by (simp add: wf_catalog_def rev_map [symmetric])
  have "map_of pm c = map_of (rev (parent_pairs roots None)) c"
    by (simp add: pm map_of_set_each)
  also have "\<dots> = Some q \<longleftrightarrow> (c, q) \<in> set (rev (parent_pairs roots None))"
    using d by (rule map_of_eq_Some_iff)
  also have "\<dots> \<longleftrightarrow> (\<exists>opt \<in> set (getAllOptionsRecursively roots).
              q = opt_id opt \<and> q \<noteq> [] \<and> c \<in> opt_id ` set (children opt))"
    by (simp add: parent_pairs_set)
  also have "\<dots> \<longleftrightarrow> (\<exists>opt \<in> set (getAllOptionsRecursively roots).
              q = opt_id opt \<and> c \<in> opt_id ` set (children opt))"
  proof -
    have "\<And>opt. opt \<in> set (getAllOptionsRecursively roots) \<Longrightarrow> opt_id opt \<noteq> []"
      using wf unfolding wf_catalog_def by (metis imageI)
    then show ?thesis by blast
  qed
  finally show ?thesis .
qed

lemma cascade_truthy:
  "truthy (foldl (\<lambda>sel descendant. js_set (opt_id descendant) v sel) s ds) j =
     (if j \<in> opt_id ` set ds then v else truthy s j)"
  by (induction ds arbitrary: s) (auto simp add: truthy_js_set)

lemma list_all_const:
  "xs \<noteq> [] \<Longrightarrow> (\<And>x. x \<in> set xs \<Longrightarrow> P x = v) \<Longrightarrow> list_all P xs = v"
  by (cases v) (auto simp add: list_all_iff neq_Nil_conv)

lemma climb_step:
  assumes "map_of idm pid = Some parentOption" "subOptions parentOption = Some subs" "pid \<noteq> []"
  shows "climb idm pm v (Some pid) sel =
           climb idm pm v (map_of pm pid)
             (js_set pid (if v then list_all (\<lambda>sub. truthy sel (opt_id sub)) subs else False) sel)"
  using assms by (subst climb.simps) simp

lemma climb_from:
  assumes wf: "wf_catalog roots" and build: "buildLookups roots None ([], []) = (idm, pm)"
      and opt: "opt \<in> set (getAllOptionsRecursively roots)" "children opt \<noteq> []"
      and others: "\<And>x. x \<in> set (getAllOptionsRecursively roots) \<Longrightarrow> x \<noteq> opt \<Longrightarrow> closed_at sel x"
      and off: "\<not> v \<Longrightarrow> \<exists>c \<in> set (children opt). \<not> truthy sel (opt_id c)"
  shows "\<exists>sel'. climb idm pm v (Some (opt_id opt)) sel = Some sel'
                \<and> (\<forall>x \<in> set (getAllOptionsRecursively roots). closed_at sel' x)"
  using opt others off
proof (induction "size_list size roots - size opt" arbitrary: opt sel rule: less_induct)
  case less
  let ?flat = "set (getAllOptionsRecursively roots)"
  let ?P = "opt_id opt"
  obtain subs where subs: "subOptions opt = Some subs" "children opt = subs"
    using less.prems(2) by (cases "subOptions opt") (auto simp add: children_def)
  let ?val = "if v then list_all (\<lambda>sub. truthy sel (opt_id sub)) subs else False"
  let ?sel' = "js_set ?P ?val sel"
  have P: "?P \<noteq> []"
    using wf less.prems(1) unfolding wf_catalog_def by (metis imageI)
  have idm: "map_of idm ?P = Some opt"
    using idm_lookup [OF wf build] less.prems(1) by simp
  have step: "climb idm pm v (Some ?P) sel = climb idm pm v (map_of pm ?P) ?sel'"
    by (rule climb_step [OF idm subs(1) P])
  have child_ids: "opt_id c \<noteq> ?P" if "c \<in> set subs" for c
  proof
    assume "opt_id c = ?P"
    moreover have "c \<in> ?flat"
      using child_in_flat [OF less.prems(1)] that subs(2) by simp
    ultimately have "c = opt"
      using same_id_same_option [OF wf _ less.prems(1)] by blast
    moreover have "size c < size opt"
      using size_child [of c opt] that subs(2) by simp
    ultimately show False by simp
  qed
  have here: "closed_at ?sel' opt"
  proof -
    have same: "list_all (\<lambda>sub. truthy ?sel' (opt_id sub)) subs
                  = list_all (\<lambda>sub. truthy sel (opt_id sub)) subs"
      using child_ids by (simp add: list_all_iff truthy_js_set)
    have own: "truthy ?sel' ?P = ?val"
      by (simp add: truthy_js_set)
    have "?val = list_all (\<lambda>sub. truthy sel (opt_id sub)) subs"
    proof (cases v)
      case True
      then show ?thesis by simp
    next
      case False
      with less.prems(4) subs(2) have "\<not> list_all (\<lambda>sub. truthy sel (opt_id sub)) subs"
        by (auto simp add: list_all_iff)
      with False show ?thesis by simp
    qed
    then show ?thesis
      unfolding closed_at_def subs(2) own same by (rule disjI2)
  qed
  have elsewhere: "closed_at ?sel' x"
    if x: "x \<in> ?flat" "x \<noteq> opt" "?P \<notin> opt_id ` set (children x)" for x
  proof -
    have "opt_id x \<noteq> ?P"
      using same_id_same_option [OF wf x(1) less.prems(1)] x(2) by blast
    moreover have "opt_id c \<noteq> ?P" if "c \<in> set (children x)" for c
      using x(3) that by (metis imageI)
    ultimately have "closed_at ?sel' x = closed_at sel x"
      by (intro closed_at_cong) (simp_all add: truthy_js_set)
    with less.prems(3) [OF x(1,2)] show ?thesis by simp
  qed
  show ?case
  proof (cases "map_of pm ?P")
    case None
    have "closed_at ?sel' x" if "x \<in> ?flat" for x
    proof (cases "x = opt")
      case True
      with here show ?thesis by simp
    next
      case False
      have "?P \<notin> opt_id ` set (children x)"
        using pm_lookup [OF wf build, of ?P "opt_id x"] None that by auto
      with elsewhere that False show ?thesis by blast
    qed
    then show ?thesis
      using step None by (simp add: climb_root)
  next
    case (Some P')
    then obtain opt' where opt': "opt' \<in> ?flat" "P' = opt_id opt'"
      "?P \<in> opt_id ` set (children opt')"
      using pm_lookup [OF wf build, of ?P P'] by blast
    then obtain c' where c': "c' \<in> set (children opt')" "opt_id c' = ?P" by auto
    have "c' \<in> ?flat" using child_in_flat [OF opt'(1) c'(1)] .
    then have c'_opt: "c' = opt"
      using same_id_same_option [OF wf _ less.prems(1)] c'(2) by blast
    have bigger: "size opt < size opt'"
      using size_child [of c' opt'] c'(1) c'_opt by simp
    have bound: "size opt' \<le> size_list size roots"
      using size_in_flat [OF opt'(1)] .
    have measure: "size_list size roots - size opt' < size_list size roots - size opt"
      using bigger bound by simp
    have nonempty: "children opt' \<noteq> []" using c'(1) by auto
    have others': "closed_at ?sel' x" if "x \<in> ?flat" "x \<noteq> opt'" for x
    proof (cases "x = opt")
      case True
      with here show ?thesis by simp
    next
      case False
      have "?P \<notin> opt_id ` set (children x)"
      proof
        assume "?P \<in> opt_id ` set (children x)"
        then have "map_of pm ?P = Some (opt_id x)"
          using pm_lookup [OF wf build, of ?P "opt_id x"] that(1) by blast
        with Some opt'(2) have "opt_id x = opt_id opt'" by simp
        then have "x = opt'"
          using same_id_same_option [OF wf that(1) opt'(1)] by blast
        with that(2) show False by simp
      qed
      with elsewhere that(1) False show ?thesis by blast
    qed
    have off': "\<exists>c \<in> set (children opt'). \<not> truthy ?sel' (opt_id c)" if "\<not> v"
      using that c' by (auto simp add: truthy_js_set)
    from less.hyps [OF measure opt'(1) nonempty others' off']
    show ?thesis
      using step Some opt'(2) by simp
  qed
qed

lemma toggle_keeps_closed:
  assumes wf: "wf_catalog roots" and build: "buildLookups roots None ([], []) = (idm, pm)"
      and closed: "\<And>x. x \<in> set (getAllOptionsRecursively roots) \<Longrightarrow> closed_at prev x"
  shows "\<exists>sel'. handleOptionChange idm pm i prev = Some sel'
                \<and> (\<forall>x \<in> set (getAllOptionsRecursively roots). closed_at sel' x)"
proof -
  let ?flat = "set (getAllOptionsRecursively roots)"
  define v where "v = (\<not> truthy prev i)"
  define ds where
    "ds = (case map_of idm i of
             None \<Rightarrow> []
           | Some changedOption \<Rightarrow>
               (case subOptions changedOption of
                  None \<Rightarrow> []
                | Some subs \<Rightarrow> getAllOptionsRecursively subs))"
  define sel1 where
    "sel1 = foldl (\<lambda>sel descendant. js_set (opt_id descendant) v sel) (js_set i v prev) ds"
  define S where "S = insert i (opt_id ` set ds)"
  have run: "handleOptionChange idm pm i prev = climb idm pm v (map_of pm i) sel1"
    by (simp add: handleOptionChange_def Let_def v_def ds_def sel1_def)
  have sel1: "truthy sel1 j = (if j \<in> S then v else truthy prev j)" for j
    by (auto simp add: sel1_def S_def cascade_truthy truthy_js_set)
  have ds_flat: "set ds \<subseteq> ?flat"
    and ds_closed: "\<And>x. x \<in> ?flat \<Longrightarrow> opt_id x \<in> S \<Longrightarrow> set (children x) \<subseteq> set ds"
    and ds_parent: "\<And>c. c \<in> set ds \<Longrightarrow>
                      \<exists>x \<in> ?flat. opt_id x \<in> S \<and> c \<in> set (children x)"
  proof -
    show "set ds \<subseteq> ?flat"
    proof (cases "map_of idm i")
      case None
      then show ?thesis by (simp add: ds_def)
    next
      case (Some x)
      then have x: "x \<in> ?flat" using idm_lookup [OF wf build] by blast
      have "ds = getAllOptionsRecursively (children x)"
        using Some by (simp add: ds_def children_def split: option.splits)
      with children_in_flat [OF x] show ?thesis by simp
    qed
  next
    fix x assume x: "x \<in> ?flat" "opt_id x \<in> S"
    show "set (children x) \<subseteq> set ds"
    proof (cases "map_of idm i")
      case None
      then have "ds = []" by (simp add: ds_def)
      moreover have "opt_id x \<noteq> i"
        using idm_lookup [OF wf build, of i x] None x(1) by auto
      ultimately show ?thesis using x(2) by (simp add: S_def)
    next
      case (Some t)
      then have t: "t \<in> ?flat" "opt_id t = i" using idm_lookup [OF wf build] by blast+
      have ds: "ds = getAllOptionsRecursively (children t)"
        using Some by (simp add: ds_def children_def split: option.splits)
      show ?thesis
      proof (cases "opt_id x = i")
        case True
        then have "x = t" using same_id_same_option [OF wf x(1) t(1)] t(2) by simp
        then show ?thesis using roots_in_flat [of "children t"] ds by simp
      next
        case False
        with x(2) obtain d where d: "d \<in> set ds" "opt_id d = opt_id x"
          by (auto simp add: S_def)
        have "d \<in> ?flat" using d(1) ds children_in_flat [OF t(1)] by auto
        then have "d = x" using same_id_same_option [OF wf _ x(1)] d(2) by blast
        then have "x \<in> set (getAllOptionsRecursively (children t))" using d(1) ds by simp
        from children_in_flat [OF this] roots_in_flat [of "children x"] ds
        show ?thesis by blast
      qed
    qed
  next
    fix c assume c: "c \<in> set ds"
    show "\<exists>x \<in> ?flat. opt_id x \<in> S \<and> c \<in> set (children x)"
    proof (cases "map_of idm i")
      case None
      with c show ?thesis by (simp add: ds_def)
    next
      case (Some t)
      then have t: "t \<in> ?flat" "opt_id t = i" using idm_lookup [OF wf build] by blast+
      have ds: "ds = getAllOptionsRecursively (children t)"
        using Some by (simp add: ds_def children_def split: option.splits)
      from flat_root_or_child [of c "children t"] c ds
      consider "c \<in> set (children t)"
        | d where "d \<in> set ds" "c \<in> set (children d)" by auto
      then show ?thesis
      proof cases
        case 1
        with t show ?thesis by (auto simp add: S_def)
      next
        case 2
        have "d \<in> ?flat" using 2(1) ds children_in_flat [OF t(1)] by auto
        with 2 show ?thesis by (auto simp add: S_def)
      qed
    qed
  qed
  have closed1: "closed_at sel1 x" if x: "x \<in> ?flat" "i \<notin> opt_id ` set (children x)" for x
  proof (cases "opt_id x \<in> S")
    case True
    have "truthy sel1 (opt_id c) = v" if "c \<in> set (children x)" for c
      using ds_closed [OF x(1) True] that by (auto simp add: sel1 S_def)
    then have "children x \<noteq> [] \<Longrightarrow>
               list_all (\<lambda>sub. truthy sel1 (opt_id sub)) (children x) = v"
      by (intro list_all_const) auto
    moreover have "truthy sel1 (opt_id x) = v" using True by (simp add: sel1)
    ultimately show ?thesis by (auto simp add: closed_at_def)
  next
    case False
    have "opt_id c \<notin> S" if c: "c \<in> set (children x)" for c
    proof
      assume inS: "opt_id c \<in> S"
      have "opt_id c \<noteq> i" using x(2) c by (metis imageI)
      with inS obtain d where d: "d \<in> set ds" "opt_id d = opt_id c" by (auto simp add: S_def)
      have "c \<in> ?flat" using child_in_flat [OF x(1) c] .
      moreover have "d \<in> ?flat" using d(1) ds_flat by blast
      ultimately have "d = c" using same_id_same_option [OF wf] d(2) by blast
      with d(1) ds_parent obtain y where y: "y \<in> ?flat" "opt_id y \<in> S" "c \<in> set (children y)"
        by blast
      have "map_of pm (opt_id c) = Some (opt_id x)"
        using pm_lookup [OF wf build, of "opt_id c" "opt_id x"] x(1) c by blast
      moreover have "map_of pm (opt_id c) = Some (opt_id y)"
        using pm_lookup [OF wf build, of "opt_id c" "opt_id y"] y(1,3) by blast
      ultimately have "opt_id x = opt_id y" by simp
      with y(2) False show False by simp
    qed
    then have "closed_at sel1 x = closed_at prev x"
      using False by (intro closed_at_cong) (simp_all add: sel1)
    with closed [OF x(1)] show ?thesis by simp
  qed
  show ?thesis
  proof (cases "map_of pm i")
    case None
    have "closed_at sel1 x" if "x \<in> ?flat" for x
    proof -
      have "i \<notin> opt_id ` set (children x)"
        using pm_lookup [OF wf build, of i "opt_id x"] None that by auto
      with closed1 that show ?thesis by blast
    qed
    then show ?thesis using run None by (simp add: climb_root)
  next
    case (Some P)
    then obtain opt where opt: "opt \<in> ?flat" "P = opt_id opt" "i \<in> opt_id ` set (children opt)"
      using pm_lookup [OF wf build, of i P] by blast
    have nonempty: "children opt \<noteq> []" using opt(3) by auto
    have others: "closed_at sel1 x" if "x \<in> ?flat" "x \<noteq> opt" for x
    proof -
      have "i \<notin> opt_id ` set (children x)"
      proof
        assume "i \<in> opt_id ` set (children x)"
        then have "map_of pm i = Some (opt_id x)"
          using pm_lookup [OF wf build, of i "opt_id x"] that(1) by blast
        with Some opt(2) have "opt_id x = opt_id opt" by simp
        then have "x = opt" using same_id_same_option [OF wf that(1) opt(1)] by blast
        with that(2) show False by simp
      qed
      with closed1 that(1) show ?thesis by blast
    qed
    have off: "\<exists>c \<in> set (children opt). \<not> truthy sel1 (opt_id c)" if "\<not> v"
    proof -
      from opt(3) obtain c where "c \<in> set (children opt)" "opt_id c = i" by auto
      moreover have "truthy sel1 i = v" by (simp add: sel1 S_def)
      ultimately show ?thesis using that by auto
    qed
    from climb_from [OF wf build opt(1) nonempty others off]
    show ?thesis using run Some opt(2) by simp
  qed
qed

lemma initial_closed: "closed_at (initialSelections_of idm) x"
  by (simp add: closed_at_def initialSelections_of_falsy list_all_iff)

lemma toggles_keep_closed:
  assumes wf: "wf_catalog roots" and build: "buildLookups roots None ([], []) = (idm, pm)"
  shows "(\<And>x. x \<in> set (getAllOptionsRecursively roots) \<Longrightarrow> closed_at sel x) \<Longrightarrow>
         \<exists>sel'. toggles idm pm ids sel = Some sel'
                \<and> (\<forall>x \<in> set (getAllOptionsRecursively roots). closed_at sel' x)"
proof (induction ids arbitrary: sel)
  case Nil
  then show ?case by simp
next
  case (Cons i ids)
  from toggle_keeps_closed [OF wf build Cons.prems, of i]
  obtain sel1 where sel1: "handleOptionChange idm pm i sel = Some sel1"
    "\<And>x. x \<in> set (getAllOptionsRecursively roots) \<Longrightarrow> closed_at sel1 x"
    by blast
  from Cons.IH [OF sel1(2)] sel1(1) show ?case by simp
qed

lemma buildLookups_append:
  "buildLookups (xs @ ys) parentId maps = buildLookups ys parentId (buildLookups xs parentId maps)"
  by (cases maps)
     (simp add: buildLookups_set_each id_pairs_def getAll_append parent_pairs_append
        set_each_append)

lemma lookups_of_forest:
  "lookups_of levels = buildLookups (concat (map options levels)) None ([], [])"
proof -
  have "foldl (\<lambda>maps lv. buildLookups (options lv) None maps) acc levels =
          buildLookups (concat (map options levels)) None acc" for acc
    by (induction levels arbitrary: acc) (simp_all add: buildLookups_append)
  then show ?thesis by (simp add: lookups_of_def)
qed

lemma allCatalogOptions_forest:
  "allCatalogOptions levels = getAllOptionsRecursively (concat (map options levels))"
  by (induction levels) (simp_all add: allCatalogOptions_def getAll_append)

text \<open>
  For every catalog with distinct, non-empty ids and every sequence of toggles, of ids of
  the catalog or not, from the all-deselected state: each toggle returns, and in the final
  state every option with children is selected if and only if all its direct children are.
\<close>

theorem tri_state_after_toggles:
  assumes "distinct (map opt_id (allCatalogOptions levels))"
      and "[] \<notin> opt_id ` set (allCatalogOptions levels)"
      and "lookups_of levels = (idm, pm)"
  shows "\<exists>sel. toggles idm pm ids (initialSelections_of idm) = Some sel
               \<and> tri_state_closed (allCatalogOptions levels) sel"
proof -
  let ?roots = "concat (map options levels)"
  have wf: "wf_catalog ?roots"
    using assms(1,2) by (simp add: wf_catalog_def allCatalogOptions_forest)
  have build: "buildLookups ?roots None ([], []) = (idm, pm)"
    using assms(3) by (simp add: lookups_of_forest)
  from toggles_keep_closed [OF wf build, of "initialSelections_of idm" ids]
  show ?thesis
    by (simp add: initial_closed tri_state_closed_iff allCatalogOptions_forest)
qed

text \<open>The third level of the catalog, taken alone, is well formed.\<close>

lemma tri_state_level_three:
  "\<exists>sel. toggles (fst (lookups_of (drop 2 PARANOIA_LEVELS))) (snd (lookups_of (drop 2 PARANOIA_LEVELS)))
            ids (initialSelections_of (fst (lookups_of (drop 2 PARANOIA_LEVELS)))) = Some sel
         \<and> tri_state_closed (allCatalogOptions (drop 2 PARANOIA_LEVELS)) sel"
proof -
  have flat: "allCatalogOptions (drop 2 PARANOIA_LEVELS) =
     [iptablesParent, allOptions_iptablesAdvanced, allOptions_iptablesBogon,
      allOptions_iptablesPortKnocking, bootAndFilesystemParent, allOptions_grubPassword,
      allOptions_filesystem, allOptions_disableFilesystems, loggingParent, allOptions_logging,
      allOptions_auditFileAccess, allOptions_auditCommands, allOptions_auditLogins,
      complianceParent, allOptions_pciDss]"
    apply (simp only: allCatalogOptions_def PARANOIA_LEVELS_def list.map concat.simps comp_def
        ParanoiaLevel.simps drop_Suc_Cons drop_0 numeral_2_eq_2)
    apply (simp add: getAllOptionsRecursively_Cons catalog_sel
        del: getAllOptionsRecursively.simps(2))
    done
  have d: "distinct (map opt_id (allCatalogOptions (drop 2 PARANOIA_LEVELS)))"
    by (simp add: flat catalog_sel)
  have n: "[] \<notin> opt_id ` set (allCatalogOptions (drop 2 PARANOIA_LEVELS))"
    by (simp add: flat catalog_sel)
  show ?thesis
    by (rule tri_state_after_toggles [OF d n]) simp
qed

section \<open>Runs on the catalog\<close>

lemma active_ssh: "activeOptions_of (selectedState [''ssh'']) = [allOptions_ssh]"
  by (simp add: activeOptions_of_def selectedState_def initialState_def allOptionsFromLevels_def
      idToOptionMap_eval truthy_js_set catalog_sel with_subOptions_sel js_trim_def)

lemma active_three:
  "activeOptions_of (selectedState [''firewall'', ''ssh'', ''sshPort'']) =
     [allOptions_firewall, allOptions_ssh, allOptions_sshPort]"
  by (simp add: activeOptions_of_def selectedState_def initialState_def allOptionsFromLevels_def
      idToOptionMap_eval truthy_js_set catalog_sel with_subOptions_sel js_trim_def)

lemma selectedState_short: "\<not> isPromptTooLong (selectedState ids)"
  by (simp add: isPromptTooLong_def selectedState_def initialState_def)

text \<open>
  Claim C7 with \<^verbatim>\<open>ssh\<close> as the one selected option, and the gateway that answers only
  calls dispatched in order.
\<close>

theorem single_option_run_witness:
  "\<not> isPromptTooLong (selectedState [''ssh''])
   \<and> activeOptions_of (selectedState [''ssh'']) = [allOptions_ssh]
   \<and> gatewayInOrder allOptions_ssh [] CallHeader = Inr ''H''
   \<and> gatewayInOrder allOptions_ssh [CallHeader] (CallSection allOptions_ssh) = Inr ''S''
   \<and> gatewayInOrder allOptions_ssh [CallHeader, CallSection allOptions_ssh] CallFooter = Inr ''F''
   \<and> snd (handleGenerateScript (gatewayInOrder allOptions_ssh) (\<lambda>n. []) idToOptionMap
            (selectedState [''ssh''])) =
       [CallHeader, CallSection allOptions_ssh, CallFooter]
   \<and> generatedScript
        (fst (handleGenerateScript (gatewayInOrder allOptions_ssh) (\<lambda>n. []) idToOptionMap
               (selectedState [''ssh'']))) =
       ''H'' @ [CHR 0x0A, CHR 0x0A] @ ''S'' @ [CHR 0x0A, CHR 0x0A] @ ''F'' @ [CHR 0x0A]
   \<and> error
        (fst (handleGenerateScript (gatewayInOrder allOptions_ssh) (\<lambda>n. []) idToOptionMap
               (selectedState [''ssh'']))) = None"
proof -
  have g: "gatewayInOrder allOptions_ssh [] CallHeader = Inr ''H''"
    "gatewayInOrder allOptions_ssh [CallHeader] (CallSection allOptions_ssh) = Inr ''S''"
    "gatewayInOrder allOptions_ssh [CallHeader, CallSection allOptions_ssh] CallFooter = Inr ''F''"
    by (simp_all add: gatewayInOrder_def)
  from single_option_run [where joke = "\<lambda>n. []" and idm = idToOptionMap,
      OF selectedState_short active_ssh g]
  show ?thesis by (simp add: selectedState_short active_ssh g)
qed

text \<open>
  Claim C2 as stated fails in its second half. With \<^verbatim>\<open>firewall\<close>, \<^verbatim>\<open>ssh\<close> and
  \<^verbatim>\<open>sshPort\<close> selected and the section call for \<^verbatim>\<open>ssh\<close> failing, the footer call and the
  third section call are never dispatched and the error is set, but the script state keeps
  the header and the first section: the \<^verbatim>\<open>catch\<close> block does not reset it.
\<close>

theorem partial_script_stays:
  "snd (handleGenerateScript gatewaySshFails (\<lambda>n. []) idToOptionMap
          (selectedState [''firewall'', ''ssh'', ''sshPort''])) =
     [CallHeader, CallSection allOptions_firewall, CallSection allOptions_ssh]
   \<and> error (fst (handleGenerateScript gatewaySshFails (\<lambda>n. []) idToOptionMap
          (selectedState [''firewall'', ''ssh'', ''sshPort'']))) =
     Some ''Network Error: Could not connect to the API. Please check your internet connection.''
   \<and> generatedScript (fst (handleGenerateScript gatewaySshFails (\<lambda>n. []) idToOptionMap
          (selectedState [''firewall'', ''ssh'', ''sshPort'']))) =
     ''H'' @ [CHR 0x0A, CHR 0x0A] @ ''S'' @ [CHR 0x0A, CHR 0x0A]"
proof -
  have sel: "isAnyOptionSelected (selectedState [''firewall'', ''ssh'', ''sshPort''])"
    by (rule active_implies_selected) (simp add: active_three)
  show ?thesis
    using sel
    by (simp add: handleGenerateScript_def tryBlock_def awaitStep_def updateProgress_def Let_def
        AppState.defs selectedState_short active_three gatewaySshFails_def networkError_def
        catalog_sel)
qed

text \<open>The amended claim C2 with \<^verbatim>\<open>ssh\<close> selected and a footer call that fails.\<close>

theorem failure_aborts_pipeline_witness:
  "\<not> isPromptTooLong (selectedState [''ssh''])
   \<and> isAnyOptionSelected (selectedState [''ssh''])
   \<and> plannedCalls (activeOptions_of (selectedState [''ssh''])) =
       [CallHeader, CallSection allOptions_ssh] @ CallFooter # []
   \<and> answered gatewayFooterFails [] [CallHeader, CallSection allOptions_ssh] [''H'', ''S'']
   \<and> gatewayFooterFails [CallHeader, CallSection allOptions_ssh] CallFooter = Inl networkError
   \<and> snd (handleGenerateScript gatewayFooterFails (\<lambda>n. []) idToOptionMap (selectedState [''ssh''])) =
       [CallHeader, CallSection allOptions_ssh, CallFooter]
   \<and> error (fst (handleGenerateScript gatewayFooterFails (\<lambda>n. []) idToOptionMap
                  (selectedState [''ssh'']))) =
       Some ''Network Error: Could not connect to the API. Please check your internet connection.''
   \<and> generatedScript (fst (handleGenerateScript gatewayFooterFails (\<lambda>n. []) idToOptionMap
                  (selectedState [''ssh'']))) =
       ''H'' @ [CHR 0x0A, CHR 0x0A] @ ''S'' @ [CHR 0x0A, CHR 0x0A]"
proof -
  have sel: "isAnyOptionSelected (selectedState [''ssh''])"
    by (rule active_implies_selected) (simp add: active_ssh)
  have split: "plannedCalls (activeOptions_of (selectedState [''ssh''])) =
       [CallHeader, CallSection allOptions_ssh] @ CallFooter # []"
    by (simp add: plannedCalls_def active_ssh)
  have before: "answered gatewayFooterFails [] [CallHeader, CallSection allOptions_ssh] [''H'', ''S'']"
    by (simp add: gatewayFooterFails_def)
  have fails: "gatewayFooterFails [CallHeader, CallSection allOptions_ssh] CallFooter = Inl networkError"
    by (simp add: gatewayFooterFails_def)
  from failure_aborts_pipeline [where joke = "\<lambda>n. []" and idm = idToOptionMap,
      OF selectedState_short sel split before fails]
  show ?thesis
    using sel split before fails
    by (simp add: selectedState_short joined_def networkError_def)
qed

text \<open>Claim C10 at a custom prompt of 1001 characters.\<close>

theorem generation_guard_witness:
  "length (customPrompt (initialState\<lparr>customPrompt := replicate 1001 (CHR ''x'')\<rparr>)) > 1000
   \<and> handleGenerateScript gatewayHSF (\<lambda>n. []) idToOptionMap
        (initialState\<lparr>customPrompt := replicate 1001 (CHR ''x'')\<rparr>) =
       (initialState\<lparr>customPrompt := replicate 1001 (CHR ''x'')\<rparr>, [])"
  using generation_guard [where st = "initialState\<lparr>customPrompt := replicate 1001 (CHR ''x'')\<rparr>"
      and gw = gatewayHSF and joke = "\<lambda>n. []" and idm = idToOptionMap]
  by simp

text \<open>
  Claim C9 at a response that cannot be parsed, with a script that passes the validation.
\<close>

theorem improvement_failure_keeps_catalog_witness:
  "js_trim (generatedScript (initialState\<lparr>generatedScript := ''#!/bin/bash''\<rparr>)) \<noteq> []
   \<and> startsWith (js_trim (generatedScript (initialState\<lparr>generatedScript := ''#!/bin/bash''\<rparr>))) ''#!''
   \<and> improvingError
        (handleRunShellcheck True (\<lambda>_ _. Inr None) (initialState\<lparr>generatedScript := ''#!/bin/bash''\<rparr>)) =
       Some ''An unexpected API error occurred during script improvement. Check the console for details.''
   \<and> catalog
        (handleRunShellcheck True (\<lambda>_ _. Inr None) (initialState\<lparr>generatedScript := ''#!/bin/bash''\<rparr>)) =
       allOptionsFromLevels
   \<and> improvedPromptIds
        (handleRunShellcheck True (\<lambda>_ _. Inr None) (initialState\<lparr>generatedScript := ''#!/bin/bash''\<rparr>)) =
       []"
proof -
  let ?st = "initialState\<lparr>generatedScript := ''#!/bin/bash''\<rparr>"
  have v: "js_trim (generatedScript ?st) \<noteq> []" "startsWith (js_trim (generatedScript ?st)) ''#!''"
    by (simp_all add: js_trim_def isWhiteSpace_def startsWith_def)
  have f: "runShellcheckAndLearn True (\<lambda>_ _. Inr None) (generatedScript ?st)
             (filter (\<lambda>opt. opt_id opt \<noteq> ''custom'') (lastActiveOptions ?st)) =
           Inl (ErrorObj ''An unexpected API error occurred during script improvement. Check the console for details.'')"
    by (simp add: runShellcheckAndLearn_def handleApiError_def invalidImprovement_def
        toLowerCase_def toLowerChar_def startsWith_def)
  from improvement_failure_keeps_catalog [OF v f] v
  show ?thesis by (simp add: initialState_def)
qed

end
